theory Spec2Isabelle
  imports Main "HOL-Library.AList"
begin

section \<open>Python values shared by the pipeline\<close>

text \<open>
  The pipeline is Python. Text is modelled as \<open>string\<close>, one \<open>char\<close> per code point,
  which covers the code points below 256 (the accented letter of the quality prefix is
  code point 224). Exceptions are values of \<open>error\<close>; a function that may raise returns
  \<open>error + 'a\<close>, with \<open>Inl\<close> for the exception.
\<close>

datatype error =
    FileNotFoundError string
  | IsADirectoryError string
  | JSONDecodeError string
  | EmptyDataError string
  | KeyError string
  | TypeError string
  | ValueError string
  | UnboundLocalError string
  | ZeroDivisionError
  | ConnectionError string

definition is_digit :: "char \<Rightarrow> bool" where
  "is_digit c = (c \<in> set ''0123456789'')"

text \<open>
  The characters that \<open>\s\<close> matches below code point 256: blank, the five ASCII
  controls of \<open>string.whitespace\<close>, the four separators 28 to 31, NEL and the
  no-break space.
\<close>

definition is_space :: "char \<Rightarrow> bool" where
  "is_space c = (c \<in> set [CHR '' '', CHR 0x09, CHR 0x0A, CHR 0x0B, CHR 0x0C, CHR 0x0D,
                           CHR 0x1C, CHR 0x1D, CHR 0x1E, CHR 0x1F, CHR 0x85, CHR 0xA0])"

definition startswith :: "string \<Rightarrow> string \<Rightarrow> bool" where
  "startswith s p = (take (length p) s = p)"

text \<open>\<open>str(n)\<close> for an integer: decimal digits, a minus sign for a negative number.\<close>

definition digit_char :: "nat \<Rightarrow> char" where
  "digit_char d = ''0123456789'' ! d"

function str_nat :: "nat \<Rightarrow> string" where
  "str_nat n = (if n < 10 then [digit_char n] else str_nat (n div 10) @ [digit_char (n mod 10)])"
  by pat_completeness auto
termination
  by (relation "measure id") auto

definition str_int :: "int \<Rightarrow> string" where
  "str_int i = (if i < 0 then CHR ''-'' # str_nat (nat (- i)) else str_nat (nat i))"

section \<open>Text normalizers\<close>

text \<open>
  \<open>remove_numbers(text) = re.sub(r"\d+", "", text)\<close>. The substitution scans from the
  left; where a run of digits starts, the whole run (the greedy match of \<open>\d+\<close>) is
  replaced by the empty text and the scan goes on behind it; any other character is
  copied.
\<close>

function remove_numbers :: "string \<Rightarrow> string" where
  "remove_numbers [] = []"
| "remove_numbers (c # cs) =
     (if is_digit c then remove_numbers (dropWhile is_digit cs) else c # remove_numbers cs)"
  by pat_completeness auto
termination
  by (relation "measure length") (auto simp: less_Suc_eq_le length_dropWhile_le)


text \<open>
  \<open>re.sub(r"^Current.*", "Current", x)\<close>, the second step of the \<open>property\<close> column.
  Without the MULTILINE flag the anchor matches at the start of the text only, and the
  dot matches every character but the line feed: the match is \<open>Current\<close> and what
  follows it up to the first line feed.
\<close>

definition collapse_current :: "string \<Rightarrow> string" where
  "collapse_current x =
     (if startswith x ''Current''
      then ''Current'' @ dropWhile (\<lambda>c. c \<noteq> CHR 0x0A) (drop (length ''Current'') x)
      else x)"

text \<open>
  \<open>s.replace(old, new)\<close>, and \<open>re.sub(old, new, s)\<close> for a pattern without special
  characters: every occurrence of \<open>old\<close>, found from the left and not overlapping the
  one before, becomes \<open>new\<close>. The pipeline calls it with fixed non-empty patterns; an
  empty pattern (where Python inserts \<open>new\<close> between all characters) is not modelled
  and leaves the text as it is.
\<close>

function replace_all :: "string \<Rightarrow> string \<Rightarrow> string \<Rightarrow> string" where
  "replace_all old new [] = []"
| "replace_all old new (c # cs) =
     (if old \<noteq> [] \<and> startswith (c # cs) old
      then new @ replace_all old new (drop (length old) (c # cs))
      else c # replace_all old new cs)"
  by pat_completeness auto
termination
  by (relation "measure (\<lambda>(old, new, s). length s)") auto

definition quality_prefix :: string where
  "quality_prefix = ''Qualit'' @ [CHR 0xE0] @ '' della misura: ''"

definition clean_unit :: "string \<Rightarrow> string" where
  "clean_unit v = (if v = ''-'' then ''Dimensionless'' else v)"

definition clean_quality :: "string \<Rightarrow> string" where
  "clean_quality v = replace_all quality_prefix [] v"

section \<open>The timestamp normalizer\<close>

text \<open>
  \<open>datetime.strptime(date_str, "%Y-%m-%d %H:%M:%S.%f")\<close> compiles the format into a
  regular expression (CPython, \<open>_strptime.TimeRE\<close>), matches it at the start of the
  text, and refuses text that the match leaves over. A matcher returns every way its
  expression matches a prefix of the text, as (matched text, rest), in the order in which
  the backtracking engine tries them: alternatives from left to right, greedy
  repetitions longest first.
\<close>

type_synonym matcher = "string \<Rightarrow> (string \<times> string) list"

definition cls :: "string \<Rightarrow> matcher" where
  "cls members s = (case s of [] \<Rightarrow> [] | c # cs \<Rightarrow> if c \<in> set members then [([c], cs)] else [])"

definition sq :: "matcher \<Rightarrow> matcher \<Rightarrow> matcher" where
  "sq p q s = concat (map (\<lambda>(a, r). map (\<lambda>(b, r'). (a @ b, r')) (q r)) (p s))"

definition alt :: "matcher \<Rightarrow> matcher \<Rightarrow> matcher" where
  "alt p q s = p s @ q s"

fun rep_upto :: "nat \<Rightarrow> string \<Rightarrow> matcher" where
  "rep_upto 0 members s = [([], s)]"
| "rep_upto (Suc n) members [] = [([], [])]"
| "rep_upto (Suc n) members (c # cs) =
     (if c \<in> set members
      then map (\<lambda>(a, r). (c # a, r)) (rep_upto n members cs) @ [([], c # cs)]
      else [([], c # cs)])"

fun spaces :: matcher where
  "spaces [] = [([], [])]"
| "spaces (c # cs) =
     (if is_space c then map (\<lambda>(a, r). (c # a, r)) (spaces cs) @ [([], c # cs)]
      else [([], c # cs)])"

definition space1 :: matcher where
  "space1 s = (case s of [] \<Rightarrow> [] | c # cs \<Rightarrow> if is_space c then [([c], cs)] else [])"

abbreviation digits09 :: string where "digits09 \<equiv> ''0123456789''"
abbreviation digits19 :: string where "digits19 \<equiv> ''123456789''"

text \<open>\<open>%Y\<close> is \<open>\d\d\d\d\<close>.\<close>
definition rx_Y :: matcher where
  "rx_Y = sq (cls digits09) (sq (cls digits09) (sq (cls digits09) (cls digits09)))"

text \<open>\<open>%m\<close> is \<open>1[0-2]|0[1-9]|[1-9]\<close>.\<close>
definition rx_m :: matcher where
  "rx_m = alt (sq (cls ''1'') (cls ''012'')) (alt (sq (cls ''0'') (cls digits19)) (cls digits19))"

text \<open>\<open>%d\<close> is \<open>3[0-1]|[1-2]\d|0[1-9]|[1-9]| [1-9]\<close>.\<close>
definition rx_d :: matcher where
  "rx_d = alt (sq (cls ''3'') (cls ''01''))
         (alt (sq (cls ''12'') (cls digits09))
         (alt (sq (cls ''0'') (cls digits19))
         (alt (cls digits19) (sq (cls '' '') (cls digits19)))))"

text \<open>\<open>%H\<close> is \<open>2[0-3]|[0-1]\d|\d\<close>.\<close>
definition rx_H :: matcher where
  "rx_H = alt (sq (cls ''2'') (cls ''0123'')) (alt (sq (cls ''01'') (cls digits09)) (cls digits09))"

text \<open>\<open>%M\<close> is \<open>[0-5]\d|\d\<close>.\<close>
definition rx_M :: matcher where
  "rx_M = alt (sq (cls ''012345'') (cls digits09)) (cls digits09)"

text \<open>\<open>%S\<close> is \<open>6[0-1]|[0-5]\d|\d\<close>.\<close>
definition rx_S :: matcher where
  "rx_S = alt (sq (cls ''6'') (cls ''01''))
         (alt (sq (cls ''012345'') (cls digits09)) (cls digits09))"

text \<open>\<open>%f\<close> is \<open>[0-9]{1,6}\<close>; the blank of the format is \<open>\s+\<close>.\<close>
definition rx_f :: matcher where
  "rx_f = sq (cls digits09) (rep_upto 5 digits09)"

definition rx_blank :: matcher where
  "rx_blank = sq space1 spaces"

record fields =
  f_Y :: string
  f_m :: string
  f_d :: string
  f_H :: string
  f_M :: string
  f_S :: string
  f_f :: string

definition format_regex :: "string \<Rightarrow> (fields \<times> string) list" where
  "format_regex s =
     [(\<lparr>f_Y = Y, f_m = m, f_d = d, f_H = H, f_M = M, f_S = S, f_f = f\<rparr>, r13).
        (Y, r1) \<leftarrow> rx_Y s, (x1, r2) \<leftarrow> cls ''-'' r1,
        (m, r3) \<leftarrow> rx_m r2, (x2, r4) \<leftarrow> cls ''-'' r3,
        (d, r5) \<leftarrow> rx_d r4, (x3, r6) \<leftarrow> rx_blank r5,
        (H, r7) \<leftarrow> rx_H r6, (x4, r8) \<leftarrow> cls '':'' r7,
        (M, r9) \<leftarrow> rx_M r8, (x5, r10) \<leftarrow> cls '':'' r9,
        (S, r11) \<leftarrow> rx_S r10, (x6, r12) \<leftarrow> cls ''.'' r11,
        (f, r13) \<leftarrow> rx_f r12]"

text \<open>
  \<open>int(s)\<close> on the text of a field, which is digits, or a blank and a digit for the
  day: blanks around the number are ignored.
\<close>

definition digit_val :: "char \<Rightarrow> nat" where
  "digit_val c = of_char c - 48"

definition int_of :: "string \<Rightarrow> nat" where
  "int_of s = foldl (\<lambda>n c. 10 * n + digit_val c) 0 (filter (\<lambda>c. \<not> is_space c) s)"

record datetime =
  year :: nat
  month :: nat
  day :: nat
  hour :: nat
  minute :: nat
  second :: nat
  microsecond :: nat

definition is_leap :: "nat \<Rightarrow> bool" where
  "is_leap y = (y mod 4 = 0 \<and> (y mod 100 \<noteq> 0 \<or> y mod 400 = 0))"

definition days_in_month :: "nat \<Rightarrow> nat \<Rightarrow> nat" where
  "days_in_month y m =
     (if m = 2 then (if is_leap y then 29 else 28)
      else if m \<in> set [4, 6, 9, 11] then 30 else 31)"

text \<open>
  The first match of the regular expression decides. Text left over after it, a year 0,
  a day the month does not have and a second of 60 or 61 (which \<open>%S\<close> matches but
  \<open>datetime\<close> refuses) are all \<open>ValueError\<close>. The fraction is padded with zeros on the
  right to six digits.
\<close>

definition strptime :: "string \<Rightarrow> error + datetime" where
  "strptime date_str =
     (case format_regex date_str of
        [] \<Rightarrow> Inl (ValueError (''time data does not match format: '' @ date_str))
      | (g, rest) # others \<Rightarrow>
          if rest \<noteq> [] then Inl (ValueError (''unconverted data remains: '' @ rest))
          else
            let y = int_of (f_Y g); mo = int_of (f_m g); d = int_of (f_d g);
                s = int_of (f_S g);
                us = int_of (f_f g @ replicate (6 - length (f_f g)) (CHR ''0''))
            in if y = 0 then Inl (ValueError ''year 0 is out of range'')
               else if days_in_month y mo < d then Inl (ValueError ''day is out of range for month'')
               else if 59 < s then Inl (ValueError ''second must be in 0..59'')
               else Inr \<lparr>year = y, month = mo, day = d, hour = int_of (f_H g),
                         minute = int_of (f_M g), second = s, microsecond = us\<rparr>)"

definition zfill :: "nat \<Rightarrow> string \<Rightarrow> string" where
  "zfill w s = replicate (w - length s) (CHR ''0'') @ s"

text \<open>
  \<open>datetime.isoformat()\<close> of a value without time zone: the fraction is left out when
  the microsecond is 0.
\<close>

definition isoformat :: "datetime \<Rightarrow> string" where
  "isoformat dt =
     zfill 4 (str_nat (year dt)) @ ''-'' @ zfill 2 (str_nat (month dt)) @ ''-''
       @ zfill 2 (str_nat (day dt)) @ ''T'' @ zfill 2 (str_nat (hour dt)) @ '':''
       @ zfill 2 (str_nat (minute dt)) @ '':'' @ zfill 2 (str_nat (second dt))
       @ (if microsecond dt = 0 then [] else ''.'' @ zfill 6 (str_nat (microsecond dt)))"

definition convert_to_iso8601 :: "string \<Rightarrow> error + string" where
  "convert_to_iso8601 date_str =
     (case strptime date_str of Inl e \<Rightarrow> Inl e | Inr date_obj \<Rightarrow> Inr (isoformat date_obj))"


section \<open>Tables, files and the world outside\<close>

text \<open>
  A pandas table is modelled by its column names and its rows, a row being a dictionary
  from column name to cell. Cells are text; numbers and missing values in cells are
  outside the model. \<open>data[c]\<close> raises \<open>KeyError\<close> for a column the table does not
  have, \<open>data[c] = values\<close> overwrites the column or appends it as the last one.
\<close>

type_synonym row = "(string \<times> string) list"

record table =
  header :: "string list"
  rows :: "row list"

definition cell :: "row \<Rightarrow> string \<Rightarrow> string" where
  "cell r c = (case map_of r c of None \<Rightarrow> [] | Some v \<Rightarrow> v)"

definition get_column :: "table \<Rightarrow> string \<Rightarrow> error + string list" where
  "get_column t c =
     (if c \<in> set (header t) then Inr (map (\<lambda>r. cell r c) (rows t)) else Inl (KeyError c))"

definition set_column :: "table \<Rightarrow> string \<Rightarrow> string list \<Rightarrow> table" where
  "set_column t c vs =
     \<lparr>header = (if c \<in> set (header t) then header t else header t @ [c]),
      rows = map (\<lambda>(r, v). AList.update c v r) (zip (rows t) vs)\<rparr>"

text \<open>\<open>series.apply(f)\<close> for a function that may raise: the first exception ends it.\<close>

fun apply_series :: "(string \<Rightarrow> error + string) \<Rightarrow> string list \<Rightarrow> error + string list" where
  "apply_series f [] = Inr []"
| "apply_series f (x # xs) =
     (case f x of
        Inl e \<Rightarrow> Inl e
      | Inr y \<Rightarrow> (case apply_series f xs of Inl e \<Rightarrow> Inl e | Inr ys \<Rightarrow> Inr (y # ys)))"

text \<open>
  Python's slice \<open>xs[a:b]\<close> (\<open>b\<close> absent in \<open>xs[a:]\<close>): an index below 0 counts from
  the end, and both ends are clipped to the list.
\<close>

definition slice_index :: "nat \<Rightarrow> int \<Rightarrow> nat" where
  "slice_index n i = (if i < 0 then nat (max 0 (int n + i)) else min n (nat i))"

definition py_slice :: "'a list \<Rightarrow> int \<Rightarrow> int option \<Rightarrow> 'a list" where
  "py_slice xs a b =
     (let n = length xs; lo = slice_index n a;
          hi = (case b of None \<Rightarrow> n | Some j \<Rightarrow> slice_index n j)
      in take (hi - lo) (drop lo xs))"

definition iloc :: "table \<Rightarrow> int \<Rightarrow> int option \<Rightarrow> table" where
  "iloc t a b = \<lparr>header = header t, rows = py_slice (rows t) a b\<rparr>"

text \<open>
  The file store maps a path, as the text the program builds, to a file with its
  contents or to a directory. A trailing separator of a path is ignored; repeated
  separators and the components \<open>.\<close> and \<open>..\<close> are not resolved. A directory's listing
  is the entries of the store directly below it, in the order of the store.
\<close>

datatype node = File string | Dir

datatype level = INFO | ERROR

record request =
  req_url :: string
  req_content_type :: string
  req_data :: string

record response =
  status_code :: int
  response_text :: string

record world =
  files :: "(string \<times> node) list"
  logged :: "(level \<times> string) list"
  commands :: "string list"
  requests :: "request list"

datatype json =
    JNull
  | JBool bool
  | JNum int
  | JStr string
  | JArr "json list"
  | JObj "(string \<times> json) list"

text \<open>
  What the pipeline calls and this repository does not contain: the CSV reader and
  writer of pandas on the text of a file, the JSON parser, the shell that runs the
  mapper (given the command line and the file store, it returns the exit code, the
  captured error output and the file store it leaves), and the HTTP server
  (\<open>None\<close> is a failure of the transport, which \<open>requests.post\<close> raises as
  \<open>ConnectionError\<close>; the number is the count of requests sent before).
\<close>

record env =
  read_csv_text :: "string \<Rightarrow> error + table"
  to_csv_text :: "table \<Rightarrow> string"
  json_loads :: "string \<Rightarrow> error + json"
  run_shell :: "string \<Rightarrow> (string \<times> node) list \<Rightarrow> int \<times> string \<times> (string \<times> node) list"
  http_post :: "nat \<Rightarrow> request \<Rightarrow> response option"

definition norm_path :: "string \<Rightarrow> string" where
  "norm_path p =
     (let q = rev (dropWhile (\<lambda>c. c = CHR ''/'') (rev p))
      in if q = [] \<and> p \<noteq> [] then ''/'' else q)"

definition node_at :: "world \<Rightarrow> string \<Rightarrow> node option" where
  "node_at w p = map_of (files w) (norm_path p)"

definition isdir :: "world \<Rightarrow> string \<Rightarrow> bool" where
  "isdir w p = (node_at w p = Some Dir)"

definition isfile :: "world \<Rightarrow> string \<Rightarrow> bool" where
  "isfile w p = (case node_at w p of Some (File s) \<Rightarrow> True | _ \<Rightarrow> False)"

definition path_exists :: "world \<Rightarrow> string \<Rightarrow> bool" where
  "path_exists w p = (node_at w p \<noteq> None)"

definition child_name :: "string \<Rightarrow> string \<Rightarrow> string option" where
  "child_name d path =
     (let k = (if norm_path d = ''/'' then ''/'' else norm_path d @ ''/'');
          name = drop (length k) path
      in if startswith path k \<and> name \<noteq> [] \<and> CHR ''/'' \<notin> set name then Some name else None)"

definition listdir :: "world \<Rightarrow> string \<Rightarrow> string list" where
  "listdir w d = List.map_filter (\<lambda>(path, n). child_name d path) (files w)"

text \<open>\<open>os.path.join(a, b)\<close> for two components.\<close>

definition path_join :: "string \<Rightarrow> string \<Rightarrow> string" where
  "path_join a b =
     (if startswith b ''/'' then b
      else if a = [] \<or> last a = CHR ''/'' then a @ b
      else a @ ''/'' @ b)"

definition read_text :: "world \<Rightarrow> string \<Rightarrow> error + string" where
  "read_text w p =
     (case node_at w p of
        None \<Rightarrow> Inl (FileNotFoundError p)
      | Some Dir \<Rightarrow> Inl (IsADirectoryError p)
      | Some (File s) \<Rightarrow> Inr s)"

text \<open>
  Writing a file and creating a directory always succeed in the model: permissions, a
  missing parent directory and a directory in the way of a file are outside it, and
  \<open>os.makedirs\<close> is modelled for the directory itself, not for its missing ancestors.
\<close>

definition write_text :: "string \<Rightarrow> string \<Rightarrow> world \<Rightarrow> world" where
  "write_text p s w = w\<lparr>files := AList.update (norm_path p) (File s) (files w)\<rparr>"

definition makedirs :: "string \<Rightarrow> world \<Rightarrow> world" where
  "makedirs p w = w\<lparr>files := AList.update (norm_path p) Dir (files w)\<rparr>"

definition os_remove :: "string \<Rightarrow> world \<Rightarrow> (error + unit) \<times> world" where
  "os_remove p w =
     (case node_at w p of
        None \<Rightarrow> (Inl (FileNotFoundError p), w)
      | Some Dir \<Rightarrow> (Inl (IsADirectoryError p), w)
      | Some (File s) \<Rightarrow> (Inr (), w\<lparr>files := AList.delete (norm_path p) (files w)\<rparr>))"

definition logging_info :: "string \<Rightarrow> world \<Rightarrow> world" where
  "logging_info msg w = w\<lparr>logged := logged w @ [(INFO, msg)]\<rparr>"

definition logging_error :: "string \<Rightarrow> world \<Rightarrow> world" where
  "logging_error msg w = w\<lparr>logged := logged w @ [(ERROR, msg)]\<rparr>"

definition read_csv :: "env \<Rightarrow> world \<Rightarrow> string \<Rightarrow> error + table" where
  "read_csv env w p =
     (case read_text w p of Inl e \<Rightarrow> Inl e | Inr s \<Rightarrow> read_csv_text env s)"

definition to_csv :: "env \<Rightarrow> table \<Rightarrow> string \<Rightarrow> world \<Rightarrow> world" where
  "to_csv env t p w = write_text p (to_csv_text env t) w"

text \<open>A \<open>for\<close> loop whose body may raise: the exception ends the loop.\<close>

fun for_each :: "('a \<Rightarrow> world \<Rightarrow> (error + unit) \<times> world) \<Rightarrow> 'a list \<Rightarrow> world
                   \<Rightarrow> (error + unit) \<times> world" where
  "for_each body [] w = (Inr (), w)"
| "for_each body (x # xs) w =
     (case body x w of
        (Inl e, w') \<Rightarrow> (Inl e, w')
      | (Inr u, w') \<Rightarrow> for_each body xs w')"


definition bind_err :: "error + 'a \<Rightarrow> ('a \<Rightarrow> error + 'b) \<Rightarrow> error + 'b" where
  "bind_err r k = (case r of Inl e \<Rightarrow> Inl e | Inr x \<Rightarrow> k x)"

definition and_then :: "(error + unit) \<times> world \<Rightarrow> (world \<Rightarrow> (error + unit) \<times> world)
                          \<Rightarrow> (error + unit) \<times> world" where
  "and_then r k = (case r of (Inl e, w) \<Rightarrow> (Inl e, w) | (Inr u, w) \<Rightarrow> k w)"

section \<open>The mapping invoker\<close>

definition tmp_rml_file :: string where
  "tmp_rml_file = ''tmp_mapping.rml.ttl''"

fun join_with :: "string \<Rightarrow> string list \<Rightarrow> string" where
  "join_with sep [] = []"
| "join_with sep [x] = x"
| "join_with sep (x # y # ys) = x @ sep @ join_with sep (y # ys)"

definition java_command :: "string \<Rightarrow> string \<Rightarrow> string" where
  "java_command rml_mapper_path output_file =
     ''java '' @ join_with '' ''
       [''-Xms512m'', ''-Xmx10g'', ''-XX:+UseG1GC'', ''-jar '' @ rml_mapper_path,
        ''-m '' @ tmp_rml_file, ''-o '' @ output_file]"

text \<open>
  \<open>execute_rml\<close>: read the rule template, put the CSV path in, write the temporary rule
  file, run the mapper, log a non-zero exit (\<open>CalledProcessError\<close>, caught), remove the
  temporary file.
\<close>

definition execute_rml :: "env \<Rightarrow> string \<Rightarrow> string \<Rightarrow> string \<Rightarrow> string \<Rightarrow> world
                             \<Rightarrow> (error + unit) \<times> world" where
  "execute_rml env csv_file rml_file output_file rml_mapper_path w =
     (case read_text w rml_file of
        Inl e \<Rightarrow> (Inl e, w)
      | Inr rml_content \<Rightarrow>
          let w1 = write_text tmp_rml_file
                     (replace_all ''{csv_file_path}'' csv_file rml_content) w;
              command = java_command rml_mapper_path output_file
          in case run_shell env command (files w1) of
               (returncode, stderr, fs) \<Rightarrow>
                 let w2 = w1\<lparr>files := fs, commands := commands w1 @ [command]\<rparr>;
                     w3 = (if returncode \<noteq> 0
                           then logging_error
                                  (''Error: '' @ str_int returncode @ '', '' @ stderr) w2
                           else w2)
                 in os_remove tmp_rml_file w3)"

text \<open>
  Reading a local variable: Python raises \<open>UnboundLocalError\<close> when the function
  assigns the variable somewhere and has not done so yet.
\<close>

definition read_local :: "string \<Rightarrow> 'a option \<Rightarrow> error + 'a" where
  "read_local name v = (case v of None \<Rightarrow> Inl (UnboundLocalError name) | Some x \<Rightarrow> Inr x)"

text \<open>
  \<open>mapping\<close>. Its local variable \<open>rml_file\<close> is the loop variable of the first
  branch (the rule path is a directory). The second branch (the rule path is a file)
  never assigns it, and the first statement of its loop over the CSV files formats it
  into the log message.
\<close>

definition mapping :: "env \<Rightarrow> string \<Rightarrow> string \<Rightarrow> string \<Rightarrow> string \<Rightarrow> world
                         \<Rightarrow> (error + unit) \<times> world" where
  "mapping env csv_file_path rml_path output_dir mapper_path w =
     (if isdir w rml_path then
        for_each (\<lambda>(j, rml_file) w.
            if isdir w csv_file_path then
              for_each (\<lambda>(i, csv_file) w.
                  execute_rml env (csv_file_path @ csv_file) (rml_path @ rml_file)
                    (output_dir @ ''output_'' @ str_nat i @ ''_'' @ str_nat j @ ''.ttl'')
                    mapper_path
                    (logging_info (''Processing file: '' @ csv_file @ '', RML: '' @ rml_file) w))
                (enumerate 0 (listdir w csv_file_path)) w
            else if isfile w csv_file_path then
              execute_rml env csv_file_path (rml_path @ rml_file) output_dir mapper_path w
            else (Inr (), logging_error ''Invalid CSV file path'' w))
          (enumerate 0 (listdir w rml_path)) w
      else if isfile w rml_path then
        (if isdir w csv_file_path then
           for_each (\<lambda>(i, csv_file) w.
               case read_local ''rml_file'' None of
                 Inl e \<Rightarrow> (Inl e, w)
               | Inr rml_file \<Rightarrow>
                   execute_rml env (csv_file_path @ csv_file) rml_path
                     (output_dir @ ''output_'' @ str_nat i @ ''.ttl'') mapper_path
                     (logging_info (''Processing file: '' @ csv_file @ '', RML: '' @ rml_file) w))
             (enumerate 0 (listdir w csv_file_path)) w
         else if isfile w csv_file_path then
           execute_rml env csv_file_path rml_path output_dir mapper_path w
         else (Inr (), logging_error ''Invalid CSV file path'' w))
      else (Inr (), w))"

section \<open>The uploader\<close>

definition upload :: "env \<Rightarrow> string \<Rightarrow> string \<Rightarrow> string \<Rightarrow> world \<Rightarrow> (error + unit) \<times> world" where
  "upload env graphdb_url repository_id rdf_file_path w =
     (let target = graphdb_url @ ''/repositories/'' @ repository_id @ ''/statements''
      in case read_text w rdf_file_path of
           Inl e \<Rightarrow> (Inl e, w)
         | Inr rdf_data \<Rightarrow>
             let req = \<lparr>req_url = target, req_content_type = ''text/turtle'',
                        req_data = rdf_data\<rparr>;
                 w1 = w\<lparr>requests := requests w @ [req]\<rparr>
             in case http_post env (length (requests w)) req of
                  None \<Rightarrow> (Inl (ConnectionError target), w1)
                | Some resp \<Rightarrow>
                    if status_code resp = 204
                    then (Inr (), logging_info
                            (''RDF file '' @ rdf_file_path @ '' uploaded to repository ''
                               @ repository_id @ ''.'') w1)
                    else (Inr (), logging_error
                            (''Failed to upload RDF file '' @ rdf_file_path @ ''. Response: ''
                               @ response_text resp) w1))"

definition upload_rdf_data_to_graphdb :: "env \<Rightarrow> string \<Rightarrow> string \<Rightarrow> string \<Rightarrow> world
                                            \<Rightarrow> (error + unit) \<times> world" where
  "upload_rdf_data_to_graphdb env rdf_file_path graphdb_url repository w =
     (if isdir w rdf_file_path then
        for_each (\<lambda>file w.
            upload env graphdb_url repository (path_join rdf_file_path file)
              (logging_info (''Uploading file: '' @ file) w))
          (listdir w rdf_file_path) w
      else if isfile w rdf_file_path then upload env graphdb_url repository rdf_file_path w
      else (Inr (), logging_error ''Invalid file path.'' w))"





section \<open>The dataset cleaner\<close>

text \<open>\<open>data[dst] = f(data[src])\<close>.\<close>

definition assign :: "table \<Rightarrow> string \<Rightarrow> string \<Rightarrow> (string list \<Rightarrow> error + string list)
                        \<Rightarrow> error + table" where
  "assign t dst src f =
     bind_err (get_column t src) (\<lambda>xs. bind_err (f xs) (\<lambda>ys. Inr (set_column t dst ys)))"

definition clean_date_column :: "table \<Rightarrow> error + table" where
  "clean_date_column t =
     assign t ''data_rilevazione'' ''data_rilevazione'' (apply_series convert_to_iso8601)"

definition clean_unit_column :: "table \<Rightarrow> error + table" where
  "clean_unit_column t = assign t ''unit'' ''unit'' (\<lambda>xs. Inr (map clean_unit xs))"

definition clean_quality_column :: "table \<Rightarrow> error + table" where
  "clean_quality_column t = assign t ''quality'' ''quality'' (\<lambda>xs. Inr (map clean_quality xs))"

definition derive_property :: "table \<Rightarrow> error + table" where
  "derive_property t =
     bind_err (assign t ''property'' ''register_name'' (\<lambda>xs. Inr (map remove_numbers xs)))
       (\<lambda>t'. assign t' ''property'' ''property'' (\<lambda>xs. Inr (map collapse_current xs)))"

definition clean_table :: "table \<Rightarrow> error + table" where
  "clean_table data =
     bind_err (clean_date_column data) (\<lambda>d1.
     bind_err (clean_unit_column d1) (\<lambda>d2.
     bind_err (clean_quality_column d2) derive_property))"

definition clean_data :: "env \<Rightarrow> string \<Rightarrow> string \<Rightarrow> world \<Rightarrow> (error + unit) \<times> world" where
  "clean_data env dataset_path output_path w =
     (case read_csv env w dataset_path of
        Inl e \<Rightarrow> (Inl e, w)
      | Inr data \<Rightarrow>
          (case clean_table data of
             Inl e \<Rightarrow> (Inl e, w)
           | Inr cleaned \<Rightarrow> (Inr (), to_csv env cleaned output_path w)))"

text \<open>A column of the cleaned table, or the exception that cleaning raises.\<close>

definition cleaned_column :: "table \<Rightarrow> string \<Rightarrow> error + string list" where
  "cleaned_column data c = bind_err (clean_table data) (\<lambda>cleaned. get_column cleaned c)"

text \<open>
  The same column after the unit and the quality transformation have been run a second
  time, on the cleaned table.
\<close>

definition recleaned_column :: "table \<Rightarrow> string \<Rightarrow> error + string list" where
  "recleaned_column data c =
     bind_err (clean_table data) (\<lambda>cleaned.
     bind_err (clean_unit_column cleaned) (\<lambda>t2.
     bind_err (clean_quality_column t2) (\<lambda>t3. get_column t3 c)))"

text \<open>Whether a text has an occurrence of another (\<open>p in s\<close>).\<close>

fun contains :: "string \<Rightarrow> string \<Rightarrow> bool" where
  "contains [] p = (p = [])"
| "contains (c # cs) p = (startswith (c # cs) p \<or> contains cs p)"

section \<open>The dataset splitter\<close>

definition chunk_name :: "nat \<Rightarrow> string" where
  "chunk_name i = ''data_chunk_'' @ str_nat i @ ''.csv''"

definition chunk :: "table \<Rightarrow> int \<Rightarrow> int \<Rightarrow> nat \<Rightarrow> table" where
  "chunk data n_chunks chunk_size i =
     (let start_index = int i * chunk_size
      in if int i = n_chunks - 1 then iloc data start_index None
         else iloc data start_index (Some (start_index + chunk_size)))"

definition split_dataset :: "env \<Rightarrow> string \<Rightarrow> int \<Rightarrow> string \<Rightarrow> world \<Rightarrow> (error + unit) \<times> world" where
  "split_dataset env dataset_path n_chunks output_dir w =
     (case read_csv env w dataset_path of
        Inl e \<Rightarrow> (Inl e, w)
      | Inr data \<Rightarrow>
          if n_chunks = 0 then (Inl ZeroDivisionError, w)
          else
            let chunk_size = int (length (rows data)) div n_chunks;
                w1 = (if \<not> path_exists w output_dir then makedirs output_dir w else w)
            in for_each (\<lambda>i w.
                   (Inr (), to_csv env (chunk data n_chunks chunk_size i)
                              (path_join output_dir (chunk_name i)) w))
                 [0..<nat n_chunks] w1)"

section \<open>The configuration loader and the orchestrator\<close>

fun str_error :: "error \<Rightarrow> string" where
  "str_error (FileNotFoundError m) = m"
| "str_error (IsADirectoryError m) = m"
| "str_error (JSONDecodeError m) = m"
| "str_error (EmptyDataError m) = m"
| "str_error (KeyError m) = m"
| "str_error (TypeError m) = m"
| "str_error (ValueError m) = m"
| "str_error (UnboundLocalError m) = m"
| "str_error ZeroDivisionError = ''division by zero''"
| "str_error (ConnectionError m) = m"

text \<open>
  \<open>load_config\<close> returns the parsed document, or logs the exception and returns
  \<open>None\<close>.
\<close>

definition load_config :: "env \<Rightarrow> string \<Rightarrow> world \<Rightarrow> json option \<times> world" where
  "load_config env config_file w =
     (case bind_err (read_text w config_file) (json_loads env) of
        Inr config \<Rightarrow> (Some config, w)
      | Inl (FileNotFoundError m) \<Rightarrow>
          (None, logging_error (''Error: The file '' @ config_file @ '' was not found.'') w)
      | Inl (JSONDecodeError m) \<Rightarrow>
          (None, logging_error
                   (''Error: Failed to decode JSON from '' @ config_file @ '': '' @ m) w)
      | Inl e \<Rightarrow> (None, logging_error (''An unexpected error occurred: '' @ str_error e) w))"

text \<open>Python's truth value of what \<open>load_config\<close> returned.\<close>

fun truthy :: "json option \<Rightarrow> bool" where
  "truthy None = False"
| "truthy (Some JNull) = False"
| "truthy (Some (JBool b)) = b"
| "truthy (Some (JNum n)) = (n \<noteq> 0)"
| "truthy (Some (JStr s)) = (s \<noteq> [])"
| "truthy (Some (JArr xs)) = (xs \<noteq> [])"
| "truthy (Some (JObj kvs)) = (kvs \<noteq> [])"

text \<open>\<open>v[k]\<close> for a text key: only a dictionary has one.\<close>

definition subscript :: "json \<Rightarrow> string \<Rightarrow> error + json" where
  "subscript v k =
     (case v of
        JObj kvs \<Rightarrow> (case map_of kvs k of None \<Rightarrow> Inl (KeyError k) | Some x \<Rightarrow> Inr x)
      | _ \<Rightarrow> Inl (TypeError ''not subscriptable by a text key''))"

definition lookup2 :: "json \<Rightarrow> string \<Rightarrow> string \<Rightarrow> error + json" where
  "lookup2 config section key = bind_err (subscript config section) (\<lambda>s. subscript s key)"

text \<open>
  The stages take paths as text and the chunk count as an integer. A configuration
  value of another JSON type is reported as \<open>TypeError\<close> when the stage is called, after
  all arguments of the call have been looked up; where exactly Python would raise inside
  the stage for such a value is not modelled.
\<close>

definition as_str :: "json \<Rightarrow> error + string" where
  "as_str v = (case v of JStr s \<Rightarrow> Inr s | _ \<Rightarrow> Inl (TypeError ''expected text''))"

definition as_int :: "json \<Rightarrow> error + int" where
  "as_int v =
     (case v of JNum n \<Rightarrow> Inr n | JBool b \<Rightarrow> Inr (if b then 1 else 0)
      | _ \<Rightarrow> Inl (TypeError ''expected an integer''))"

definition stage_clean :: "env \<Rightarrow> json \<Rightarrow> world \<Rightarrow> (error + unit) \<times> world" where
  "stage_clean env config w =
     (let w1 = logging_info ''Cleaning the data ...'' w
      in case bind_err (lookup2 config ''clean_data'' ''input'') (\<lambda>a.
              bind_err (lookup2 config ''clean_data'' ''output'') (\<lambda>b.
              bind_err (as_str a) (\<lambda>a'.
              bind_err (as_str b) (\<lambda>b'. Inr (a', b'))))) of
           Inl e \<Rightarrow> (Inl e, w1)
         | Inr (input, output) \<Rightarrow> clean_data env input output w1)"

definition stage_split :: "env \<Rightarrow> json \<Rightarrow> world \<Rightarrow> (error + unit) \<times> world" where
  "stage_split env config w =
     (let w1 = logging_info ''Splitting the dataset ...'' w
      in case bind_err (lookup2 config ''split_dataset'' ''dataset_path'') (\<lambda>a.
              bind_err (lookup2 config ''split_dataset'' ''n_chunks'') (\<lambda>b.
              bind_err (lookup2 config ''split_dataset'' ''output_dir'') (\<lambda>c.
              bind_err (as_str a) (\<lambda>a'.
              bind_err (as_int b) (\<lambda>b'.
              bind_err (as_str c) (\<lambda>c'. Inr (a', b', c'))))))) of
           Inl e \<Rightarrow> (Inl e, w1)
         | Inr (dataset_path, n_chunks, output_dir) \<Rightarrow>
             split_dataset env dataset_path n_chunks output_dir w1)"

definition stage_map :: "env \<Rightarrow> json \<Rightarrow> world \<Rightarrow> (error + unit) \<times> world" where
  "stage_map env config w =
     (let w1 = logging_info ''Mapping the data ...'' w
      in case bind_err (lookup2 config ''split_dataset'' ''output_dir'') (\<lambda>a.
              bind_err (lookup2 config ''mapping'' ''rml_path'') (\<lambda>b.
              bind_err (lookup2 config ''mapping'' ''output_path'') (\<lambda>c.
              bind_err (lookup2 config ''mapping'' ''mapper_path'') (\<lambda>d.
              bind_err (as_str a) (\<lambda>a'.
              bind_err (as_str b) (\<lambda>b'.
              bind_err (as_str c) (\<lambda>c'.
              bind_err (as_str d) (\<lambda>d'. Inr (a', b', c', d'))))))))) of
           Inl e \<Rightarrow> (Inl e, w1)
         | Inr (csv_file_path, rml_path, output_dir, mapper_path) \<Rightarrow>
             mapping env csv_file_path rml_path output_dir mapper_path w1)"

definition stage_upload :: "env \<Rightarrow> json \<Rightarrow> world \<Rightarrow> (error + unit) \<times> world" where
  "stage_upload env config w =
     (let w1 = logging_info ''Uploading RDF data to GraphDB ...'' w
      in case bind_err (lookup2 config ''mapping'' ''output_path'') (\<lambda>a.
              bind_err (lookup2 config ''upload_to_graphDB'' ''graphDB_url'') (\<lambda>b.
              bind_err (lookup2 config ''upload_to_graphDB'' ''graphDB_repo'') (\<lambda>c.
              bind_err (as_str a) (\<lambda>a'.
              bind_err (as_str b) (\<lambda>b'.
              bind_err (as_str c) (\<lambda>c'. Inr (a', b', c'))))))) of
           Inl e \<Rightarrow> (Inl e, w1)
         | Inr (rdf_file_path, graphdb_url, repository) \<Rightarrow>
             upload_rdf_data_to_graphdb env rdf_file_path graphdb_url repository w1)"

text \<open>
  \<open>main\<close>: the four \<open>if\<close> blocks in their order. An exception of a stage is not caught
  anywhere in \<open>main\<close>, so it ends the run.
\<close>

definition main :: "env \<Rightarrow> string \<Rightarrow> bool \<Rightarrow> bool \<Rightarrow> bool \<Rightarrow> bool \<Rightarrow> world
                      \<Rightarrow> (error + unit) \<times> world" where
  "main env config_path clean split_flag map_flag upload_flag w =
     (case load_config env config_path w of
        (config, w0) \<Rightarrow>
          if \<not> truthy config
          then (Inr (), logging_error ''Failed to load configuration. Exiting.'' w0)
          else
            (case config of
               None \<Rightarrow> (Inr (), w0)
             | Some cfg \<Rightarrow>
                 and_then (if clean then stage_clean env cfg w0 else (Inr (), w0)) (\<lambda>w1.
                 and_then (if split_flag then stage_split env cfg w1 else (Inr (), w1)) (\<lambda>w2.
                 and_then (if map_flag then stage_map env cfg w2 else (Inr (), w2)) (\<lambda>w3.
                 if upload_flag then stage_upload env cfg w3 else (Inr (), w3))))))"


section \<open>A small installation, for concrete runs\<close>

text \<open>
  A file store with a configuration, a raw dataset of seven rows, a dataset whose second
  timestamp is malformed, a rule template, a directory of chunks and a directory of
  three RDF files. The CSV reader knows the two datasets by the text of their files, the
  CSV writer prints the cells of each row, the mapper always exits with code 1, and the
  server answers the second request with status 500 and all others with 204.
\<close>

definition ex_row :: "string \<Rightarrow> string \<Rightarrow> string \<Rightarrow> string \<Rightarrow> row" where
  "ex_row ts u q reg =
     [(''data_rilevazione'', ts), (''unit'', u), (''quality'', q), (''register_name'', reg)]"

definition ex_header :: "string list" where
  "ex_header = [''data_rilevazione'', ''unit'', ''quality'', ''register_name'']"

definition ex_table :: table where
  "ex_table = \<lparr>header = ex_header, rows =
     [ex_row ''2021-03-04 10:15:30.500000'' ''-'' (quality_prefix @ ''Good'') ''Current123A'',
      ex_row ''2021-03-04 10:15:31.500000'' ''V'' ''Good'' ''Voltage1'',
      ex_row ''2021-03-04 10:15:32.500000'' ''-'' ''Bad'' ''Power'',
      ex_row ''2021-03-04 10:15:33.500000'' ''A'' ''Good'' ''Current2'',
      ex_row ''2021-03-04 10:15:34.500000'' ''W'' ''Good'' ''Power3'',
      ex_row ''2021-03-04 10:15:35.500000'' ''-'' ''Good'' ''Energy'',
      ex_row ''2021-03-04 10:15:36.500000'' ''V'' ''Good'' ''Voltage2'']\<rparr>"

definition ex_bad_table :: table where
  "ex_bad_table = \<lparr>header = ex_header, rows =
     [ex_row ''2021-03-04 10:15:30.500000'' ''-'' ''Good'' ''Current1'',
      ex_row ''04/03/2021'' ''V'' ''Good'' ''Voltage1'']\<rparr>"

definition ex_to_csv :: "table \<Rightarrow> string" where
  "ex_to_csv t =
     join_with [CHR 0x0A]
       (join_with '','' (header t) # map (\<lambda>r. join_with '','' (map (cell r) (header t))) (rows t))"

definition ex_sections :: "(string \<times> json) list" where
  "ex_sections =
     [(''clean_data'', JObj [(''input'', JStr ''bad.csv''), (''output'', JStr ''clean.csv'')]),
      (''mapping'', JObj [(''rml_path'', JStr ''rule.rml.ttl''), (''output_path'', JStr ''rdf/''),
                          (''mapper_path'', JStr ''rmlmapper.jar'')]),
      (''upload_to_graphDB'', JObj [(''graphDB_url'', JStr ''http://localhost:7200''),
                                    (''graphDB_repo'', JStr ''sensors'')])]"

definition ex_config :: json where
  "ex_config =
     JObj ((''split_dataset'', JObj [(''dataset_path'', JStr ''raw.csv''), (''n_chunks'', JNum 3),
                                     (''output_dir'', JStr ''chunks/'')]) # ex_sections)"

definition ex_config_no_split :: json where
  "ex_config_no_split = JObj ex_sections"

definition ex_env :: env where
  "ex_env =
     \<lparr>read_csv_text = (\<lambda>s. if s = ''RAW'' then Inr ex_table
                            else if s = ''BAD'' then Inr ex_bad_table
                            else Inl (EmptyDataError ''No columns to parse from file'')),
      to_csv_text = ex_to_csv,
      json_loads = (\<lambda>s. if s = ''CONFIG'' then Inr ex_config
                         else if s = ''NOSPLIT'' then Inr ex_config_no_split
                         else Inl (JSONDecodeError ''Expecting value'')),
      run_shell = (\<lambda>command fs. (1, ''mapper failed'', fs)),
      http_post = (\<lambda>k req. if k = 1
                     then Some \<lparr>status_code = 500, response_text = ''Internal Server Error''\<rparr>
                     else Some \<lparr>status_code = 204, response_text = []\<rparr>)\<rparr>"


definition ex_world :: world where
  "ex_world =
     \<lparr>files = [(''config.json'', File ''CONFIG''), (''nosplit.json'', File ''NOSPLIT''),
               (''broken.json'', File ''{''), (''raw.csv'', File ''RAW''),
               (''bad.csv'', File ''BAD''), (''rule.rml.ttl'', File ''source {csv_file_path}''),
               (''chunks'', Dir), (''chunks/old.csv'', File ''RAW''),
               (''rdf'', Dir), (''rdf/a.ttl'', File ''A''), (''rdf/b.ttl'', File ''B''),
               (''rdf/c.ttl'', File ''C'')],
      logged = [], commands = [], requests = []\<rparr>"

section \<open>The formats the specification names\<close>

text \<open>
  The fixed format \<open>YYYY-MM-DD HH:MM:SS.ffffff\<close> read exactly: a text of the same
  length with a digit where the format has a letter and the format's own character
  elsewhere.
\<close>

fun fits :: "string \<Rightarrow> string \<Rightarrow> bool" where
  "fits [] [] = True"
| "fits (p # ps) (c # cs) =
     ((if p \<in> set ''YMDHSf'' then is_digit c else c = p) \<and> fits ps cs)"
| "fits [] (c # cs) = False"
| "fits (p # ps) [] = False"

definition exact_format :: "string \<Rightarrow> bool" where
  "exact_format s = fits ''YYYY-MM-DD HH:MM:SS.ffffff'' s"

text \<open>
  The texts the regular expression of the format can match: a year of four digits;
  month, day, hour, minute and second of one or two digits (the day may also be a blank
  and a digit); one or more whitespace characters between date and time; a fraction of
  one to six digits.
\<close>

definition digits_1_2 :: "string \<Rightarrow> bool" where
  "digits_1_2 x = ((length x = 1 \<or> length x = 2) \<and> list_all is_digit x)"

definition lenient_format :: "string \<Rightarrow> bool" where
  "lenient_format s =
     (\<exists>Y m d b H M S f.
        s = Y @ ''-'' @ m @ ''-'' @ d @ b @ H @ '':'' @ M @ '':'' @ S @ ''.'' @ f
        \<and> length Y = 4 \<and> list_all is_digit Y
        \<and> digits_1_2 m
        \<and> (digits_1_2 d \<or> (\<exists>c. d = [CHR '' '', c] \<and> is_digit c))
        \<and> b \<noteq> [] \<and> list_all is_space b
        \<and> digits_1_2 H \<and> digits_1_2 M \<and> digits_1_2 S
        \<and> 1 \<le> length f \<and> length f \<le> 6 \<and> list_all is_digit f)"

text \<open>
  Two more datasets: a small one that cleans without error, and one row whose quality
  holds the prefix inside the prefix and whose register name holds a line feed.
\<close>

definition ex_small_table :: table where
  "ex_small_table = \<lparr>header = ex_header, rows =
     [ex_row ''2021-03-04 10:15:30.500000'' ''-'' (quality_prefix @ ''Good'') ''Current123A'',
      ex_row ''2021-03-04 10:15:30.500000'' ''V'' ''Good'' ''Voltage1'']\<rparr>"

definition ex_odd_table :: table where
  "ex_odd_table = \<lparr>header = ex_header, rows =
     [ex_row ''2021-03-04 10:15:30.500000'' ''-''
        (''Qualit'' @ [CHR 0xE0] @ '' della '' @ quality_prefix @ ''misura: '')
        (''Current1'' @ [CHR 0x0A] @ ''B'')]\<rparr>"

section \<open>The configuration loader and the orchestrator: properties\<close>

lemma load_config_failure:
  assumes "bind_err (read_text w p) (json_loads env) = Inl e"
  shows "\<exists>msg. load_config env p w = (None, logging_error msg w)"
  using assms by (cases e) (auto simp: load_config_def)

lemma main_loaded:
  assumes "load_config env p w = (Some cfg, w0)" and "truthy (Some cfg)"
  shows "main env p clean split_flag map_flag upload_flag w =
           and_then (if clean then stage_clean env cfg w0 else (Inr (), w0)) (\<lambda>w1.
           and_then (if split_flag then stage_split env cfg w1 else (Inr (), w1)) (\<lambda>w2.
           and_then (if map_flag then stage_map env cfg w2 else (Inr (), w2)) (\<lambda>w3.
           if upload_flag then stage_upload env cfg w3 else (Inr (), w3))))"
  using assms by (simp add: main_def)

lemma stage_map_ok:
  assumes "lookup2 cfg ''split_dataset'' ''output_dir'' = Inr (JStr d)"
    and "lookup2 cfg ''mapping'' ''rml_path'' = Inr (JStr r)"
    and "lookup2 cfg ''mapping'' ''output_path'' = Inr (JStr out)"
    and "lookup2 cfg ''mapping'' ''mapper_path'' = Inr (JStr mp)"
  shows "stage_map env cfg w = mapping env d r out mp (logging_info ''Mapping the data ...'' w)"
  using assms by (simp add: stage_map_def bind_err_def as_str_def)

lemma stage_map_no_section:
  assumes "subscript cfg ''split_dataset'' = Inl e"
  shows "stage_map env cfg w = (Inl e, logging_info ''Mapping the data ...'' w)"
  using assms by (simp add: stage_map_def lookup2_def bind_err_def)

lemma ex_norm_paths:
  "norm_path ''config.json'' = ''config.json''"
  "norm_path ''nosplit.json'' = ''nosplit.json''"
  "norm_path ''broken.json'' = ''broken.json''"
  "norm_path ''missing.json'' = ''missing.json''"
  "norm_path ''raw.csv'' = ''raw.csv''"
  "norm_path ''bad.csv'' = ''bad.csv''"
  "norm_path ''clean.csv'' = ''clean.csv''"
  "norm_path ''rule.rml.ttl'' = ''rule.rml.ttl''"
  "norm_path ''chunks/'' = ''chunks''"
  "norm_path ''rdf/'' = ''rdf''"
  "norm_path tmp_rml_file = tmp_rml_file"
  by (simp_all add: norm_path_def tmp_rml_file_def)

text \<open>
  C6. When loading the configuration fails (the file cannot be read: it is absent, a
  directory; or the parser refuses its text), \<open>load_config\<close> logs one error and
  returns \<open>None\<close>, and \<open>main\<close> logs that it exits and returns: whatever the four flags
  are, the world after the run is the world before it with these two log entries, so no
  stage has written a file, run a command or sent a request.
\<close>

theorem config_failure_aborts:
  assumes "bind_err (read_text w config_path) (json_loads env) = Inl e"
  shows "\<exists>msg. load_config env config_path w = (None, logging_error msg w)
           \<and> main env config_path clean split_flag map_flag upload_flag w
               = (Inr (), logging_error ''Failed to load configuration. Exiting.''
                            (logging_error msg w))"
proof -
  from load_config_failure [OF assms] obtain msg
    where "load_config env config_path w = (None, logging_error msg w)" by blast
  then show ?thesis by (auto simp: main_def)
qed

theorem config_failure_aborts_witness:
  "bind_err (read_text ex_world ''missing.json'') (json_loads ex_env)
     = Inl (FileNotFoundError ''missing.json'')
   \<and> (\<exists>msg. load_config ex_env ''missing.json'' ex_world = (None, logging_error msg ex_world)
           \<and> main ex_env ''missing.json'' True True True True ex_world
               = (Inr (), logging_error ''Failed to load configuration. Exiting.''
                            (logging_error msg ex_world)))"
proof -
  have h: "bind_err (read_text ex_world ''missing.json'') (json_loads ex_env)
             = Inl (FileNotFoundError ''missing.json'')"
    by (simp add: bind_err_def read_text_def node_at_def ex_norm_paths ex_world_def)
  from config_failure_aborts [OF h] h show ?thesis by blast
qed

lemma ex_load_config:
  "load_config ex_env ''config.json'' ex_world = (Some ex_config, ex_world)"
  "load_config ex_env ''nosplit.json'' ex_world = (Some ex_config_no_split, ex_world)"
  by (simp_all add: load_config_def bind_err_def read_text_def node_at_def ex_norm_paths
        ex_world_def ex_env_def)

lemma ex_config_lookups:
  "lookup2 ex_config ''split_dataset'' ''output_dir'' = Inr (JStr ''chunks/'')"
  "lookup2 ex_config ''split_dataset'' ''dataset_path'' = Inr (JStr ''raw.csv'')"
  "lookup2 ex_config ''split_dataset'' ''n_chunks'' = Inr (JNum 3)"
  "lookup2 ex_config ''clean_data'' ''input'' = Inr (JStr ''bad.csv'')"
  "lookup2 ex_config ''clean_data'' ''output'' = Inr (JStr ''clean.csv'')"
  "lookup2 ex_config ''mapping'' ''rml_path'' = Inr (JStr ''rule.rml.ttl'')"
  "lookup2 ex_config ''mapping'' ''output_path'' = Inr (JStr ''rdf/'')"
  "lookup2 ex_config ''mapping'' ''mapper_path'' = Inr (JStr ''rmlmapper.jar'')"
  "subscript ex_config_no_split ''split_dataset'' = Inl (KeyError ''split_dataset'')"
  by (simp_all add: lookup2_def subscript_def bind_err_def ex_config_def ex_sections_def
        ex_config_no_split_def)

lemma ex_config_truthy:
  "truthy (Some ex_config)" "truthy (Some ex_config_no_split)"
  by (simp_all add: ex_config_def ex_config_no_split_def ex_sections_def)

text \<open>
  C10. Take a run whose configuration loaded and whose clean and split stages, where
  enabled, returned normally, leaving the world \<open>w2\<close>. With the map flag set, \<open>main\<close>
  calls \<open>mapping\<close> with the value at \<open>split_dataset\<close>, \<open>output_dir\<close> as its CSV source
  (first conjunct: no other key of the configuration reaches that argument). When the
  configuration has no usable \<open>split_dataset\<close> section, the look-up raises (a
  \<open>KeyError\<close> for an absent key) and the run ends there, also with the split stage
  disabled (second conjunct).
\<close>

theorem map_stage_csv_source:
  assumes "load_config env p w = (Some cfg, w0)" and "truthy (Some cfg)"
    and "(if clean then stage_clean env cfg w0 else (Inr (), w0)) = (Inr (), w1)"
    and "(if split_flag then stage_split env cfg w1 else (Inr (), w1)) = (Inr (), w2)"
  shows "(lookup2 cfg ''split_dataset'' ''output_dir'' = Inr (JStr d)
            \<and> lookup2 cfg ''mapping'' ''rml_path'' = Inr (JStr r)
            \<and> lookup2 cfg ''mapping'' ''output_path'' = Inr (JStr out)
            \<and> lookup2 cfg ''mapping'' ''mapper_path'' = Inr (JStr mp)
          \<longrightarrow> main env p clean split_flag True upload_flag w
                = and_then (mapping env d r out mp (logging_info ''Mapping the data ...'' w2))
                    (\<lambda>w3. if upload_flag then stage_upload env cfg w3 else (Inr (), w3)))
       \<and> (subscript cfg ''split_dataset'' = Inl e
          \<longrightarrow> main env p clean split_flag True upload_flag w
                = (Inl e, logging_info ''Mapping the data ...'' w2))"
proof -
  have m: "main env p clean split_flag True upload_flag w
             = and_then (stage_map env cfg w2)
                 (\<lambda>w3. if upload_flag then stage_upload env cfg w3 else (Inr (), w3))"
    unfolding main_loaded [OF assms(1,2)] assms(3) using assms(4)
    by (simp add: and_then_def)
  show ?thesis
    unfolding m by (auto simp: stage_map_ok stage_map_no_section and_then_def)
qed

theorem map_stage_csv_source_witness:
  "main ex_env ''config.json'' False False True False ex_world
     = and_then (mapping ex_env ''chunks/'' ''rule.rml.ttl'' ''rdf/'' ''rmlmapper.jar''
                   (logging_info ''Mapping the data ...'' ex_world))
         (\<lambda>w3. if False then stage_upload ex_env ex_config w3 else (Inr (), w3))
   \<and> main ex_env ''nosplit.json'' False False True False ex_world
     = (Inl (KeyError ''split_dataset''), logging_info ''Mapping the data ...'' ex_world)"
proof -
  have a: "(if False then stage_clean ex_env c ex_world else (Inr (), ex_world)) = (Inr (), ex_world)"
    for c by simp
  have b: "(if False then stage_split ex_env c ex_world else (Inr (), ex_world)) = (Inr (), ex_world)"
    for c by simp
  from map_stage_csv_source [OF ex_load_config(1) ex_config_truthy(1) a b,
         of "''chunks/''" "''rule.rml.ttl''" "''rdf/''" "''rmlmapper.jar''" False]
       map_stage_csv_source [OF ex_load_config(2) ex_config_truthy(2) a b,
         of _ _ _ _ False "KeyError ''split_dataset''"]
  show ?thesis by (simp add: ex_config_lookups)
qed

section \<open>The mapping invoker: properties\<close>

lemma ex_listdir:
  "listdir ex_world ''chunks/'' = [''old.csv'']"
  "listdir ex_world ''rdf/'' = [''a.ttl'', ''b.ttl'', ''c.ttl'']"
  by (simp_all add: listdir_def List.map_filter_def child_name_def startswith_def
        ex_norm_paths ex_world_def)

lemma ex_kinds:
  "isdir ex_world ''rule.rml.ttl'' = False"
  "isfile ex_world ''rule.rml.ttl'' = True"
  "isdir ex_world ''chunks/'' = True"
  "isdir ex_world ''rdf/'' = True"
  by (simp_all add: isdir_def isfile_def node_at_def ex_norm_paths ex_world_def)

text \<open>
  With a rule file and a directory of CSV files that is not empty, the loop of
  \<open>mapping\<close> raises in its first round, before \<open>execute_rml\<close> is called.
\<close>

lemma mapping_rule_file_csv_dir:
  assumes "\<not> isdir w rml_path" and "isfile w rml_path" and "isdir w csv_file_path"
    and "listdir w csv_file_path \<noteq> []"
  shows "mapping env csv_file_path rml_path output_dir mapper_path w
           = (Inl (UnboundLocalError ''rml_file''), w)"
proof -
  from assms(4) obtain f fs where "listdir w csv_file_path = f # fs"
    by (cases "listdir w csv_file_path") auto
  then show ?thesis
    using assms(1-3) by (simp add: mapping_def read_local_def)
qed

text \<open>
  C2. The claim asks for one mapper invocation per CSV file, with output
  \<open>output_i.ttl\<close>. In the small installation the rule path is a file and the CSV
  directory holds one file: \<open>mapping\<close> raises \<open>UnboundLocalError\<close> for \<open>rml_file\<close>
  and leaves the world as it was; no command has been run.
\<close>

theorem mapping_single_rule_raises:
  "mapping ex_env ''chunks/'' ''rule.rml.ttl'' ''rdf/'' ''rmlmapper.jar'' ex_world
     = (Inl (UnboundLocalError ''rml_file''), ex_world)
   \<and> length (listdir ex_world ''chunks/'') = 1
   \<and> commands ex_world = []"
  by (simp add: mapping_def ex_kinds ex_listdir enumerate_eq_zip read_local_def)
     (simp add: ex_world_def)

section \<open>The timestamp normalizer: properties\<close>

lemma cls_mem: "(a, r) \<in> set (cls ms s) \<longleftrightarrow> (\<exists>c. a = [c] \<and> c \<in> set ms \<and> s = c # r)"
  by (cases s) (auto simp: cls_def)

lemma sq_mem:
  "(a, r) \<in> set (sq p q s) \<longleftrightarrow>
     (\<exists>a1 a2 r1. (a1, r1) \<in> set (p s) \<and> (a2, r) \<in> set (q r1) \<and> a = a1 @ a2)"
  by (force simp: sq_def)

lemma alt_mem: "(a, r) \<in> set (alt p q s) \<longleftrightarrow> (a, r) \<in> set (p s) \<or> (a, r) \<in> set (q s)"
  by (simp add: alt_def)

lemma rep_upto_mem:
  "(a, r) \<in> set (rep_upto n ms s) \<Longrightarrow> s = a @ r \<and> length a \<le> n \<and> set a \<subseteq> set ms"
proof (induction n ms s arbitrary: a r rule: rep_upto.induct)
  case (3 n members c cs)
  show ?case
  proof (cases "c \<in> set members")
    case True
    with 3(2) consider "a = [] \<and> r = c # cs"
      | a' where "a = c # a'" "(a', r) \<in> set (rep_upto n members cs)"
      by auto
    then show ?thesis
    proof cases
      case 1 then show ?thesis by simp
    next
      case 2
      with 3(1) [OF True 2(2)] True show ?thesis by simp
    qed
  next
    case False
    with 3(2) show ?thesis by simp
  qed
qed simp_all

lemma spaces_mem: "(a, r) \<in> set (spaces s) \<Longrightarrow> s = a @ r \<and> list_all is_space a"
proof (induction s arbitrary: a r)
  case Nil then show ?case by simp
next
  case (Cons c cs)
  show ?case
  proof (cases "is_space c")
    case True
    with Cons.prems consider "a = [] \<and> r = c # cs"
      | a' where "a = c # a'" "(a', r) \<in> set (spaces cs)"
      by auto
    then show ?thesis
    proof cases
      case 1 then show ?thesis by simp
    next
      case 2
      with Cons.IH [OF 2(2)] True show ?thesis by simp
    qed
  next
    case False
    with Cons.prems show ?thesis by simp
  qed
qed

lemma space1_mem: "(a, r) \<in> set (space1 s) \<longleftrightarrow> (\<exists>c. a = [c] \<and> is_space c \<and> s = c # r)"
  by (cases s) (auto simp: space1_def)


lemma cls_digits:
  assumes "(a, r) \<in> set (cls ms s)" and "list_all is_digit ms"
  shows "s = a @ r \<and> length a = 1 \<and> list_all is_digit a"
  using assms by (auto simp: cls_mem list_all_iff)

lemma sq_digits:
  assumes "(a, r) \<in> set (sq (cls m1) (cls m2) s)"
    and "list_all is_digit m1" and "list_all is_digit m2"
  shows "s = a @ r \<and> length a = 2 \<and> list_all is_digit a"
  using assms by (auto simp: sq_mem cls_mem list_all_iff)

lemma digit_classes:
  "list_all is_digit digits09" "list_all is_digit digits19" "list_all is_digit ''012''"
  "list_all is_digit ''0123''" "list_all is_digit ''012345''" "list_all is_digit ''01''"
  "list_all is_digit ''12''" "list_all is_digit ''0''" "list_all is_digit ''1''"
  "list_all is_digit ''2''" "list_all is_digit ''3''" "list_all is_digit ''6''"
  by (simp_all add: is_digit_def)

lemma rx_Y_mem:
  assumes "(a, r) \<in> set (rx_Y s)"
  shows "s = a @ r \<and> length a = 4 \<and> list_all is_digit a"
proof -
  from assms obtain a1 a2 r1 where
    1: "(a1, r1) \<in> set (cls digits09 s)" and
    2: "(a2, r) \<in> set (sq (cls digits09) (sq (cls digits09) (cls digits09)) r1)" and
    a: "a = a1 @ a2"
    unfolding rx_Y_def sq_mem [of a r "cls digits09"] by blast
  from 2 obtain b1 b2 r2 where
    3: "(b1, r2) \<in> set (cls digits09 r1)" and
    4: "(b2, r) \<in> set (sq (cls digits09) (cls digits09) r2)" and
    b: "a2 = b1 @ b2"
    unfolding sq_mem [of a2 r "cls digits09"] by blast
  from cls_digits [OF 1 digit_classes(1)] cls_digits [OF 3 digit_classes(1)]
    sq_digits [OF 4 digit_classes(1) digit_classes(1)] a b
  show ?thesis by simp
qed


lemma one_digit:
  assumes "(a, r) \<in> set (cls ms s)" and "list_all is_digit ms"
  shows "s = a @ r \<and> digits_1_2 a"
  using cls_digits [OF assms] by (simp add: digits_1_2_def)

lemma two_digits:
  assumes "(a, r) \<in> set (sq (cls m1) (cls m2) s)"
    and "list_all is_digit m1" and "list_all is_digit m2"
  shows "s = a @ r \<and> digits_1_2 a"
  using sq_digits [OF assms] by (simp add: digits_1_2_def)

lemma rx_m_mem:
  assumes "(a, r) \<in> set (rx_m s)"
  shows "s = a @ r \<and> digits_1_2 a"
proof -
  from assms consider
      (a) "(a, r) \<in> set (sq (cls ''1'') (cls ''012'') s)"
    | (b) "(a, r) \<in> set (sq (cls ''0'') (cls digits19) s)"
    | (c) "(a, r) \<in> set (cls digits19 s)"
    unfolding rx_m_def alt_mem by blast
  then show ?thesis
  proof cases
    case a show ?thesis by (rule two_digits [OF a digit_classes(9) digit_classes(3)])
  next
    case b show ?thesis by (rule two_digits [OF b digit_classes(8) digit_classes(2)])
  next
    case c show ?thesis by (rule one_digit [OF c digit_classes(2)])
  qed
qed


lemma rx_H_mem:
  assumes "(a, r) \<in> set (rx_H s)"
  shows "s = a @ r \<and> digits_1_2 a"
proof -
  from assms consider
      (a) "(a, r) \<in> set (sq (cls ''2'') (cls ''0123'') s)"
    | (b) "(a, r) \<in> set (sq (cls ''01'') (cls digits09) s)"
    | (c) "(a, r) \<in> set (cls digits09 s)"
    unfolding rx_H_def alt_mem by blast
  then show ?thesis
  proof cases
    case a show ?thesis by (rule two_digits [OF a digit_classes(10) digit_classes(4)])
  next
    case b show ?thesis by (rule two_digits [OF b digit_classes(6) digit_classes(1)])
  next
    case c show ?thesis by (rule one_digit [OF c digit_classes(1)])
  qed
qed

lemma rx_M_mem:
  assumes "(a, r) \<in> set (rx_M s)"
  shows "s = a @ r \<and> digits_1_2 a"
proof -
  from assms consider
      (a) "(a, r) \<in> set (sq (cls ''012345'') (cls digits09) s)"
    | (b) "(a, r) \<in> set (cls digits09 s)"
    unfolding rx_M_def alt_mem by blast
  then show ?thesis
  proof cases
    case a show ?thesis by (rule two_digits [OF a digit_classes(5) digit_classes(1)])
  next
    case b show ?thesis by (rule one_digit [OF b digit_classes(1)])
  qed
qed

lemma rx_S_mem:
  assumes "(a, r) \<in> set (rx_S s)"
  shows "s = a @ r \<and> digits_1_2 a"
proof -
  from assms consider
      (a) "(a, r) \<in> set (sq (cls ''6'') (cls ''01'') s)"
    | (b) "(a, r) \<in> set (sq (cls ''012345'') (cls digits09) s)"
    | (c) "(a, r) \<in> set (cls digits09 s)"
    unfolding rx_S_def alt_mem by blast
  then show ?thesis
  proof cases
    case a show ?thesis by (rule two_digits [OF a digit_classes(12) digit_classes(6)])
  next
    case b show ?thesis by (rule two_digits [OF b digit_classes(5) digit_classes(1)])
  next
    case c show ?thesis by (rule one_digit [OF c digit_classes(1)])
  qed
qed

lemma rx_d_mem:
  assumes "(a, r) \<in> set (rx_d s)"
  shows "s = a @ r \<and> (digits_1_2 a \<or> (\<exists>c. a = [CHR '' '', c] \<and> is_digit c))"
proof -
  from assms consider
      (a) "(a, r) \<in> set (sq (cls ''3'') (cls ''01'') s)"
    | (b) "(a, r) \<in> set (sq (cls ''12'') (cls digits09) s)"
    | (c) "(a, r) \<in> set (sq (cls ''0'') (cls digits19) s)"
    | (d) "(a, r) \<in> set (cls digits19 s)"
    | (e) "(a, r) \<in> set (sq (cls '' '') (cls digits19) s)"
    unfolding rx_d_def alt_mem by blast
  then show ?thesis
  proof cases
    case a with two_digits [OF a digit_classes(11) digit_classes(6)] show ?thesis by simp
  next
    case b with two_digits [OF b digit_classes(7) digit_classes(1)] show ?thesis by simp
  next
    case c with two_digits [OF c digit_classes(8) digit_classes(2)] show ?thesis by simp
  next
    case d with one_digit [OF d digit_classes(2)] show ?thesis by simp
  next
    case e
    then obtain c1 c2 where c: "a = [c1, c2]" "c1 \<in> set '' ''" "s = c1 # c2 # r"
      and c2: "c2 \<in> set digits19"
      unfolding sq_mem cls_mem by auto
    from c2 digit_classes(2) have "is_digit c2" unfolding list_all_iff by blast
    with c show ?thesis by simp
  qed
qed

lemma rx_f_mem:
  assumes "(a, r) \<in> set (rx_f s)"
  shows "s = a @ r \<and> 1 \<le> length a \<and> length a \<le> 6 \<and> list_all is_digit a"
proof -
  from assms obtain a1 a2 r1 where
    1: "(a1, r1) \<in> set (cls digits09 s)" and
    2: "(a2, r) \<in> set (rep_upto 5 digits09 r1)" and a: "a = a1 @ a2"
    unfolding rx_f_def sq_mem by blast
  from rep_upto_mem [OF 2] have r: "r1 = a2 @ r" "length a2 \<le> 5" "set a2 \<subseteq> set digits09"
    by blast+
  from r(3) digit_classes(1) have "list_all is_digit a2" unfolding list_all_iff by blast
  note r = r(1,2) this
  with cls_digits [OF 1 digit_classes(1)] a r show ?thesis by simp
qed

lemma rx_blank_mem:
  assumes "(a, r) \<in> set (rx_blank s)"
  shows "s = a @ r \<and> a \<noteq> [] \<and> list_all is_space a"
proof -
  from assms obtain a1 a2 r1 where
    1: "(a1, r1) \<in> set (space1 s)" and
    2: "(a2, r) \<in> set (spaces r1)" and a: "a = a1 @ a2"
    unfolding rx_blank_def sq_mem by blast
  from 1 spaces_mem [OF 2] a show ?thesis by (auto simp: space1_mem)
qed

lemma lit_mem: "(a, r) \<in> set (cls [c] s) \<longleftrightarrow> a = [c] \<and> s = c # r"
  by (auto simp: cls_mem)


lemma format_regex_mem:
  assumes "(g, r) \<in> set (format_regex s)"
  shows "\<exists>b. s = f_Y g @ ''-'' @ f_m g @ ''-'' @ f_d g @ b @ f_H g @ '':'' @ f_M g @ '':''
                 @ f_S g @ ''.'' @ f_f g @ r
          \<and> length (f_Y g) = 4 \<and> list_all is_digit (f_Y g)
          \<and> digits_1_2 (f_m g)
          \<and> (digits_1_2 (f_d g) \<or> (\<exists>c. f_d g = [CHR '' '', c] \<and> is_digit c))
          \<and> b \<noteq> [] \<and> list_all is_space b
          \<and> digits_1_2 (f_H g) \<and> digits_1_2 (f_M g) \<and> digits_1_2 (f_S g)
          \<and> 1 \<le> length (f_f g) \<and> length (f_f g) \<le> 6 \<and> list_all is_digit (f_f g)"
proof -
  from assms obtain Y r1 x1 r2 m r3 x2 r4 d r5 b r6 H r7 x4 r8 M r9 x5 r10 S r11 x6 r12 f where
    Y: "(Y, r1) \<in> set (rx_Y s)" and s1: "(x1, r2) \<in> set (cls ''-'' r1)" and
    m: "(m, r3) \<in> set (rx_m r2)" and s2: "(x2, r4) \<in> set (cls ''-'' r3)" and
    d: "(d, r5) \<in> set (rx_d r4)" and b: "(b, r6) \<in> set (rx_blank r5)" and
    H: "(H, r7) \<in> set (rx_H r6)" and s4: "(x4, r8) \<in> set (cls '':'' r7)" and
    M: "(M, r9) \<in> set (rx_M r8)" and s5: "(x5, r10) \<in> set (cls '':'' r9)" and
    S: "(S, r11) \<in> set (rx_S r10)" and s6: "(x6, r12) \<in> set (cls ''.'' r11)" and
    f: "(f, r) \<in> set (rx_f r12)" and
    g: "g = \<lparr>f_Y = Y, f_m = m, f_d = d, f_H = H, f_M = M, f_S = S, f_f = f\<rparr>"
    unfolding format_regex_def by auto
  note facts = rx_Y_mem [OF Y] rx_m_mem [OF m] rx_d_mem [OF d] rx_blank_mem [OF b]
    rx_H_mem [OF H] rx_M_mem [OF M] rx_S_mem [OF S] rx_f_mem [OF f]
    s1 [unfolded lit_mem] s2 [unfolded lit_mem] s4 [unfolded lit_mem] s5 [unfolded lit_mem]
    s6 [unfolded lit_mem]
  have "s = Y @ ''-'' @ m @ ''-'' @ d @ b @ H @ '':'' @ M @ '':'' @ S @ ''.'' @ f @ r"
    using facts by simp
  with facts g show ?thesis by (intro exI [of _ b]) simp
qed

lemma strptime_matches:
  assumes "strptime s = Inr dt"
  shows "\<exists>g. (g, []) \<in> set (format_regex s)"
proof (cases "format_regex s")
  case Nil
  with assms show ?thesis by (simp add: strptime_def)
next
  case (Cons x xs)
  obtain g rest where x: "x = (g, rest)" by (cases x)
  from assms Cons x have "rest = []"
    by (simp add: strptime_def split: if_splits)
  with Cons x show ?thesis by auto
qed

lemma strptime_error:
  assumes "strptime s = Inl e"
  shows "\<exists>m. e = ValueError m"
proof (cases "format_regex s")
  case Nil
  with assms show ?thesis by (auto simp: strptime_def)
next
  case (Cons x xs)
  obtain g rest where x: "x = (g, rest)" by (cases x)
  from assms Cons x show ?thesis
    by (auto simp: strptime_def Let_def split: if_splits)
qed

lemma convert_lenient:
  assumes "convert_to_iso8601 s = Inr out"
  shows "lenient_format s"
proof -
  from assms obtain dt where "strptime s = Inr dt"
    by (auto simp: convert_to_iso8601_def split: sum.splits)
  from strptime_matches [OF this] obtain g where "(g, []) \<in> set (format_regex s)" ..
  from format_regex_mem [OF this] show ?thesis
    unfolding lenient_format_def by (elim exE conjE) (intro exI conjI, simp, assumption+)
qed

lemma convert_error:
  assumes "convert_to_iso8601 s = Inl e"
  shows "\<exists>m. e = ValueError m"
  using assms strptime_error [of s e]
  by (auto simp: convert_to_iso8601_def split: sum.splits)

text \<open>Rules that let the simplifier run the matchers on a given text.\<close>

lemma cls_simps:
  "cls ms [] = []"
  "cls ms (c # cs) = (if c \<in> set ms then [([c], cs)] else [])"
  by (simp_all add: cls_def)

lemma space1_simps:
  "space1 [] = []"
  "space1 (c # cs) = (if is_space c then [([c], cs)] else [])"
  by (simp_all add: space1_def)

lemma rep_upto_simps:
  "rep_upto n ms [] = [([], [])]"
  "rep_upto n ms (c # cs) =
     (if n = 0 then [([], c # cs)]
      else if c \<in> set ms
        then map (\<lambda>(a, r). (c # a, r)) (rep_upto (n - 1) ms cs) @ [([], c # cs)]
        else [([], c # cs)])"
  by (cases n; simp)+

lemma replicate_numeral: "replicate (numeral k) x = x # replicate (pred_numeral k) x"
  by (simp add: numeral_eq_Suc)

lemmas rx_eval = format_regex_def rx_Y_def rx_m_def rx_d_def rx_H_def rx_M_def rx_S_def
  rx_f_def rx_blank_def sq_def alt_def cls_simps space1_simps rep_upto_simps is_space_def

lemmas strptime_eval = strptime_def int_of_def digit_val_def days_in_month_def is_leap_def
  Let_def is_space_def replicate_numeral

lemmas isoformat_eval = isoformat_def zfill_def digit_char_def replicate_numeral

lemma regex_example:
  "\<exists>others. format_regex ''2021-03-04 10:15:30.500000'' =
     (\<lparr>f_Y = ''2021'', f_m = ''03'', f_d = ''04'', f_H = ''10'', f_M = ''15'', f_S = ''30'',
        f_f = ''500000''\<rparr>, []) # others"
  by (simp add: rx_eval)

lemma convert_example:
  "convert_to_iso8601 ''2021-03-04 10:15:30.500000'' = Inr ''2021-03-04T10:15:30.500000''"
proof -
  from regex_example obtain others where
    "format_regex ''2021-03-04 10:15:30.500000'' =
       (\<lparr>f_Y = ''2021'', f_m = ''03'', f_d = ''04'', f_H = ''10'', f_M = ''15'', f_S = ''30'',
          f_f = ''500000''\<rparr>, []) # others" ..
  then have "strptime ''2021-03-04 10:15:30.500000'' =
      Inr \<lparr>year = 2021, month = 3, day = 4, hour = 10, minute = 15, second = 30,
           microsecond = 500000\<rparr>"
    by (simp add: strptime_eval)
  then show ?thesis by (simp add: convert_to_iso8601_def isoformat_eval)
qed

lemma regex_short:
  "format_regex ''2021-3-4 1:2:3.5'' =
     [(\<lparr>f_Y = ''2021'', f_m = ''3'', f_d = ''4'', f_H = ''1'', f_M = ''2'', f_S = ''3'',
         f_f = ''5''\<rparr>, [])]"
  by (simp add: rx_eval)

lemma convert_short:
  "convert_to_iso8601 ''2021-3-4 1:2:3.5'' = Inr ''2021-03-04T01:02:03.500000''"
proof -
  have "strptime ''2021-3-4 1:2:3.5'' =
      Inr \<lparr>year = 2021, month = 3, day = 4, hour = 1, minute = 2, second = 3,
           microsecond = 500000\<rparr>"
    by (simp add: strptime_eval regex_short)
  then show ?thesis by (simp add: convert_to_iso8601_def isoformat_eval)
qed

lemma convert_slashes:
  "convert_to_iso8601 ''04/03/2021''
     = Inl (ValueError ''time data does not match format: 04/03/2021'')"
proof -
  have "format_regex ''04/03/2021'' = []" by (simp add: rx_eval)
  then show ?thesis by (simp add: convert_to_iso8601_def strptime_def)
qed

text \<open>
  C7, the claim as stated fails: a text that is not in the fixed format (one-digit
  month, day, hour, minute and second, a fraction of one digit) is converted, not
  refused.
\<close>

theorem convert_accepts_short_fields:
  "\<not> exact_format ''2021-3-4 1:2:3.5''
   \<and> convert_to_iso8601 ''2021-3-4 1:2:3.5'' = Inr ''2021-03-04T01:02:03.500000''"
  by (simp add: exact_format_def is_digit_def convert_short)

text \<open>
  C7, amended. The example of the specification is converted as stated, and
  \<open>04/03/2021\<close> is refused with a \<open>ValueError\<close>. Every refusal is a \<open>ValueError\<close>,
  and only the one format is tried: every text that is converted consists of a year of
  four digits, a month, a day, whitespace, hour, minute, second and a fraction in the
  shape \<open>lenient_format\<close> describes. That shape is wider than the fixed format.
\<close>

theorem convert_to_iso8601_format:
  "convert_to_iso8601 ''2021-03-04 10:15:30.500000'' = Inr ''2021-03-04T10:15:30.500000''
   \<and> (\<exists>m. convert_to_iso8601 ''04/03/2021'' = Inl (ValueError m))
   \<and> (\<forall>e. convert_to_iso8601 s = Inl e \<longrightarrow> (\<exists>m. e = ValueError m))
   \<and> (\<forall>out. convert_to_iso8601 s = Inr out \<longrightarrow> lenient_format s)"
proof (intro conjI allI impI)
  show "convert_to_iso8601 ''2021-03-04 10:15:30.500000'' = Inr ''2021-03-04T10:15:30.500000''"
    by (rule convert_example)
  show "\<exists>m. convert_to_iso8601 ''04/03/2021'' = Inl (ValueError m)"
    using convert_slashes by blast
next
  fix e assume "convert_to_iso8601 s = Inl e"
  then show "\<exists>m. e = ValueError m" by (rule convert_error)
next
  fix out assume "convert_to_iso8601 s = Inr out"
  then show "lenient_format s" by (rule convert_lenient)
qed

theorem convert_to_iso8601_format_witness:
  "convert_to_iso8601 ''2021-3-4 1:2:3.5'' = Inr ''2021-03-04T01:02:03.500000''
   \<and> lenient_format ''2021-3-4 1:2:3.5''
   \<and> convert_to_iso8601 ''04/03/2021''
       = Inl (ValueError ''time data does not match format: 04/03/2021'')"
  using convert_to_iso8601_format [of "''2021-3-4 1:2:3.5''"]
    convert_to_iso8601_format [of "''04/03/2021''"] convert_short convert_slashes
  by blast

section \<open>The dataset cleaner: properties\<close>

lemma filter_dropWhile_not: "filter (\<lambda>c. \<not> P c) (dropWhile P xs) = filter (\<lambda>c. \<not> P c) xs"
  by (induction xs) auto

lemma remove_numbers_filter: "remove_numbers s = filter (\<lambda>c. \<not> is_digit c) s"
  by (induction s rule: remove_numbers.induct) (simp_all add: filter_dropWhile_not)

lemma cell_update_same: "cell (AList.update c v r) c = v"
  by (simp add: cell_def update_conv')

lemma cell_update_other: "c' \<noteq> c \<Longrightarrow> cell (AList.update c v r) c' = cell r c'"
  by (simp add: cell_def update_conv')

lemma rows_set_column:
  "length vs = length (rows t) \<Longrightarrow> length (rows (set_column t c vs)) = length (rows t)"
  by (simp add: set_column_def)

lemma get_column_length: "get_column t c = Inr xs \<Longrightarrow> length xs = length (rows t)"
  by (auto simp: get_column_def split: if_splits)

lemma get_column_header: "(\<exists>xs. get_column t c = Inr xs) \<longleftrightarrow> c \<in> set (header t)"
  by (simp add: get_column_def)

lemma header_set_column:
  "set (header (set_column t c vs)) = insert c (set (header t))"
  by (auto simp: set_column_def)

lemma get_set_same:
  assumes "length vs = length (rows t)"
  shows "get_column (set_column t c vs) c = Inr vs"
proof -
  have "map (\<lambda>r. cell r c) (map (\<lambda>(r, v). AList.update c v r) (zip (rows t) vs))
          = map snd (zip (rows t) vs)"
    by (simp add: cell_update_same case_prod_unfold)
  with assms show ?thesis by (simp add: get_column_def set_column_def)
qed

lemma get_set_other:
  assumes "length vs = length (rows t)" and "c' \<noteq> c"
  shows "get_column (set_column t c vs) c' = get_column t c'"
proof -
  have "map (\<lambda>r. cell r c') (map (\<lambda>(r, v). AList.update c v r) (zip (rows t) vs))
          = map (\<lambda>r. cell r c') (map fst (zip (rows t) vs))"
    using assms(2) by (simp add: cell_update_other case_prod_unfold)
  with assms show ?thesis by (auto simp: get_column_def set_column_def)
qed

lemma apply_series_length: "apply_series f xs = Inr ys \<Longrightarrow> length ys = length xs"
  by (induction xs arbitrary: ys) (auto split: sum.splits)

lemma assign_columns:
  assumes "assign t dst src f = Inr t'"
    and "\<And>xs ys. f xs = Inr ys \<Longrightarrow> length ys = length xs"
  shows "\<exists>xs ys. get_column t src = Inr xs \<and> f xs = Inr ys \<and> get_column t' dst = Inr ys
           \<and> length (rows t') = length (rows t)
           \<and> (\<forall>c'. c' \<noteq> dst \<longrightarrow> get_column t' c' = get_column t c')"
proof -
  from assms(1) obtain xs ys where
    x: "get_column t src = Inr xs" and y: "f xs = Inr ys" and t': "t' = set_column t dst ys"
    by (auto simp: assign_def bind_err_def split: sum.splits)
  from assms(2) [OF y] get_column_length [OF x] have l: "length ys = length (rows t)" by simp
  from x y t' l show ?thesis
    by (simp add: get_set_same get_set_other rows_set_column)
qed

lemma assign_total:
  assumes "src \<in> set (header t)"
  shows "\<exists>t'. assign t dst src (\<lambda>xs. Inr (g xs)) = Inr t'
           \<and> set (header t') = insert dst (set (header t))"
  using assms by (simp add: assign_def bind_err_def get_column_def header_set_column)

lemma clean_table_columns:
  assumes "clean_table data = Inr cleaned"
  shows "\<exists>ts ts' us qs rs.
           get_column data ''data_rilevazione'' = Inr ts
         \<and> apply_series convert_to_iso8601 ts = Inr ts'
         \<and> get_column data ''unit'' = Inr us
         \<and> get_column data ''quality'' = Inr qs
         \<and> get_column data ''register_name'' = Inr rs
         \<and> get_column cleaned ''data_rilevazione'' = Inr ts'
         \<and> get_column cleaned ''unit'' = Inr (map clean_unit us)
         \<and> get_column cleaned ''quality'' = Inr (map clean_quality qs)
         \<and> get_column cleaned ''register_name'' = Inr rs
         \<and> get_column cleaned ''property'' = Inr (map (\<lambda>v. collapse_current (remove_numbers v)) rs)
         \<and> length (rows cleaned) = length (rows data)"
proof -
  from assms obtain d1 d2 d3 d4 where
    s1: "assign data ''data_rilevazione'' ''data_rilevazione'' (apply_series convert_to_iso8601) = Inr d1" and
    s2: "assign d1 ''unit'' ''unit'' (\<lambda>xs. Inr (map clean_unit xs)) = Inr d2" and
    s3: "assign d2 ''quality'' ''quality'' (\<lambda>xs. Inr (map clean_quality xs)) = Inr d3" and
    s4: "assign d3 ''property'' ''register_name'' (\<lambda>xs. Inr (map remove_numbers xs)) = Inr d4" and
    s5: "assign d4 ''property'' ''property'' (\<lambda>xs. Inr (map collapse_current xs)) = Inr cleaned"
    unfolding clean_table_def derive_property_def clean_date_column_def clean_unit_column_def
      clean_quality_column_def bind_err_def
    by (auto split: sum.splits)
  have l1: "\<And>xs ys. apply_series convert_to_iso8601 xs = Inr ys \<Longrightarrow> length ys = length xs"
    by (rule apply_series_length)
  from assign_columns [OF s1 l1] obtain ts ts' where
    a1: "get_column data ''data_rilevazione'' = Inr ts" "apply_series convert_to_iso8601 ts = Inr ts'"
        "get_column d1 ''data_rilevazione'' = Inr ts'" "length (rows d1) = length (rows data)" and
    o1: "\<And>c'. c' \<noteq> ''data_rilevazione'' \<Longrightarrow> get_column d1 c' = get_column data c'"
    by blast
  from assign_columns [OF s2] obtain us where
    a2: "get_column d1 ''unit'' = Inr us" "get_column d2 ''unit'' = Inr (map clean_unit us)"
        "length (rows d2) = length (rows d1)" and
    o2: "\<And>c'. c' \<noteq> ''unit'' \<Longrightarrow> get_column d2 c' = get_column d1 c'"
    by auto
  from assign_columns [OF s3] obtain qs where
    a3: "get_column d2 ''quality'' = Inr qs" "get_column d3 ''quality'' = Inr (map clean_quality qs)"
        "length (rows d3) = length (rows d2)" and
    o3: "\<And>c'. c' \<noteq> ''quality'' \<Longrightarrow> get_column d3 c' = get_column d2 c'"
    by auto
  from assign_columns [OF s4] obtain rs where
    a4: "get_column d3 ''register_name'' = Inr rs" "get_column d4 ''property'' = Inr (map remove_numbers rs)"
        "length (rows d4) = length (rows d3)" and
    o4: "\<And>c'. c' \<noteq> ''property'' \<Longrightarrow> get_column d4 c' = get_column d3 c'"
    by auto
  from assign_columns [OF s5] a4(2) have
    a5: "get_column cleaned ''property'' = Inr (map collapse_current (map remove_numbers rs))"
        "length (rows cleaned) = length (rows d4)" and
    o5: "\<And>c'. c' \<noteq> ''property'' \<Longrightarrow> get_column cleaned c' = get_column d4 c'"
    by auto
  have "get_column data ''unit'' = Inr us" using a2(1) o1 by simp
  moreover have "get_column data ''quality'' = Inr qs" using a3(1) o1 o2 by simp
  moreover have "get_column data ''register_name'' = Inr rs" using a4(1) o1 o2 o3 by simp
  moreover have "get_column cleaned ''data_rilevazione'' = Inr ts'" using a1(3) o2 o3 o4 o5 by simp
  moreover have "get_column cleaned ''unit'' = Inr (map clean_unit us)" using a2(2) o3 o4 o5 by simp
  moreover have "get_column cleaned ''quality'' = Inr (map clean_quality qs)" using a3(2) o4 o5 by simp
  moreover have "get_column cleaned ''register_name'' = Inr rs" using a4(1) o4 o5 by simp
  moreover have "length (rows cleaned) = length (rows data)" using a1(4) a2(3) a3(3) a4(3) a5(2) by simp
  ultimately show ?thesis using a1(1,2) a5(1) by (simp add: comp_def)
qed

lemma clean_table_succeeds:
  assumes "get_column data ''data_rilevazione'' = Inr ts"
    and "apply_series convert_to_iso8601 ts = Inr ts'"
    and "''unit'' \<in> set (header data)" and "''quality'' \<in> set (header data)"
    and "''register_name'' \<in> set (header data)"
  shows "\<exists>cleaned. clean_table data = Inr cleaned"
proof -
  let ?d1 = "set_column data ''data_rilevazione'' ts'"
  have s1: "clean_date_column data = Inr ?d1"
    using assms(1,2) by (simp add: clean_date_column_def assign_def bind_err_def)
  have h1: "set (header ?d1) = insert ''data_rilevazione'' (set (header data))"
    by (rule header_set_column)
  from assign_total [of "''unit''" ?d1 "''unit''" "map clean_unit"] h1 assms(3) obtain d2 where
    s2: "clean_unit_column ?d1 = Inr d2" and h2: "set (header d2) = insert ''unit'' (set (header ?d1))"
    unfolding clean_unit_column_def by auto
  from assign_total [of "''quality''" d2 "''quality''" "map clean_quality"] h1 h2 assms(4) obtain d3 where
    s3: "clean_quality_column d2 = Inr d3" and h3: "set (header d3) = insert ''quality'' (set (header d2))"
    unfolding clean_quality_column_def by auto
  from assign_total [of "''register_name''" d3 "''property''" "map remove_numbers"] h1 h2 h3 assms(5)
  obtain d4 where
    s4: "assign d3 ''property'' ''register_name'' (\<lambda>xs. Inr (map remove_numbers xs)) = Inr d4" and
    h4: "set (header d4) = insert ''property'' (set (header d3))"
    by auto
  from assign_total [of "''property''" d4 "''property''" "map collapse_current"] h4 obtain d5 where
    s5: "assign d4 ''property'' ''property'' (\<lambda>xs. Inr (map collapse_current xs)) = Inr d5"
    by auto
  from s1 s2 s3 s4 s5 show ?thesis
    by (simp add: clean_table_def derive_property_def bind_err_def)
qed

lemma cleaned_columns:
  assumes "get_column data ''data_rilevazione'' = Inr ts"
    and "apply_series convert_to_iso8601 ts = Inr ts'"
    and "get_column data ''unit'' = Inr us" and "get_column data ''quality'' = Inr qs"
    and "get_column data ''register_name'' = Inr rs"
  shows "cleaned_column data ''unit'' = Inr (map clean_unit us)"
    and "cleaned_column data ''quality'' = Inr (map clean_quality qs)"
    and "cleaned_column data ''property'' = Inr (map (\<lambda>v. collapse_current (remove_numbers v)) rs)"
proof -
  from assms(3-5) have "''unit'' \<in> set (header data)" "''quality'' \<in> set (header data)"
    "''register_name'' \<in> set (header data)"
    using get_column_header by blast+
  from clean_table_succeeds [OF assms(1,2) this] obtain cleaned
    where c: "clean_table data = Inr cleaned" ..
  from clean_table_columns [OF c] assms(3-5)
  show "cleaned_column data ''unit'' = Inr (map clean_unit us)"
    and "cleaned_column data ''quality'' = Inr (map clean_quality qs)"
    and "cleaned_column data ''property'' = Inr (map (\<lambda>v. collapse_current (remove_numbers v)) rs)"
    by (auto simp: cleaned_column_def bind_err_def c)
qed

lemmas column_eval = get_column_def cell_def ex_header_def ex_row_def

lemma ex_small_columns:
  "get_column ex_small_table ''data_rilevazione''
     = Inr [''2021-03-04 10:15:30.500000'', ''2021-03-04 10:15:30.500000'']"
  "get_column ex_small_table ''unit'' = Inr [''-'', ''V'']"
  "get_column ex_small_table ''quality'' = Inr [quality_prefix @ ''Good'', ''Good'']"
  "get_column ex_small_table ''register_name'' = Inr [''Current123A'', ''Voltage1'']"
  by (simp_all add: column_eval ex_small_table_def)

lemma ex_odd_columns:
  "get_column ex_odd_table ''data_rilevazione'' = Inr [''2021-03-04 10:15:30.500000'']"
  "get_column ex_odd_table ''unit'' = Inr [''-'']"
  "get_column ex_odd_table ''quality''
     = Inr [''Qualit'' @ [CHR 0xE0] @ '' della '' @ quality_prefix @ ''misura: '']"
  "get_column ex_odd_table ''register_name'' = Inr [''Current1'' @ [CHR 0x0A] @ ''B'']"
  by (simp_all add: column_eval ex_odd_table_def)

lemma ex_dates:
  "apply_series convert_to_iso8601 [''2021-03-04 10:15:30.500000'', ''2021-03-04 10:15:30.500000'']
     = Inr [''2021-03-04T10:15:30.500000'', ''2021-03-04T10:15:30.500000'']"
  "apply_series convert_to_iso8601 [''2021-03-04 10:15:30.500000'']
     = Inr [''2021-03-04T10:15:30.500000'']"
  by (simp_all add: convert_example)

lemma collapse_current_prefix:
  assumes "startswith x ''Current''"
  shows "collapse_current x
           = ''Current'' @ dropWhile (\<lambda>c. c \<noteq> CHR 0x0A) (drop (length ''Current'') x)"
  using assms by (simp add: collapse_current_def)

lemma collapse_current_one_line:
  assumes "startswith (remove_numbers v) ''Current''" and "CHR 0x0A \<notin> set v"
  shows "collapse_current (remove_numbers v) = ''Current''"
proof -
  have "set (drop (length ''Current'') (remove_numbers v)) \<subseteq> set v"
    using set_drop_subset [of "length ''Current''" "remove_numbers v"]
    by (auto simp: remove_numbers_filter)
  with assms(2) have "dropWhile (\<lambda>c. c \<noteq> CHR 0x0A) (drop (length ''Current'') (remove_numbers v)) = []"
    by (auto simp: dropWhile_eq_Nil_conv)
  with collapse_current_prefix [OF assms(1)] show ?thesis by simp
qed

text \<open>
  C8, the claim as stated fails on the derived column: a register name with a line feed
  behind \<open>Current\<close> begins with \<open>Current\<close> after the digits are gone, and its property
  is not the literal \<open>Current\<close>: the line feed and what follows it stay.
\<close>

theorem property_keeps_text_after_line_feed:
  "get_column ex_odd_table ''register_name'' = Inr [''Current1'' @ [CHR 0x0A] @ ''B'']
   \<and> startswith (remove_numbers (''Current1'' @ [CHR 0x0A] @ ''B'')) ''Current''
   \<and> cleaned_column ex_odd_table ''property'' = Inr [''Current'' @ [CHR 0x0A] @ ''B'']
   \<and> ''Current'' @ [CHR 0x0A] @ ''B'' \<noteq> ''Current''"
  by (simp add: cleaned_columns(3) [OF ex_odd_columns(1) ex_dates(2) ex_odd_columns(2,3,4)]
        ex_odd_columns(4))
     (simp add: collapse_current_def startswith_def is_digit_def)

text \<open>
  C8, amended. \<open>remove_numbers\<close> removes exactly the digits and keeps every other
  character in its place (\<open>Current123A\<close> becomes \<open>CurrentA\<close>). The property column of
  the cleaned table holds, row by row, the register name without its digits, passed
  through the collapse: a value that begins with \<open>Current\<close> has the text from its
  start up to the first line feed replaced by \<open>Current\<close>, so a register name without
  line feed collapses to exactly \<open>Current\<close>; any other value is left as it is.
\<close>

theorem property_column:
  "remove_numbers s = filter (\<lambda>c. \<not> is_digit c) s
   \<and> remove_numbers ''Current123A'' = ''CurrentA''
   \<and> (\<forall>ps. cleaned_column data ''property'' = Inr ps \<longrightarrow>
         (\<exists>rs. get_column data ''register_name'' = Inr rs
              \<and> ps = map (\<lambda>v. collapse_current (remove_numbers v)) rs))
   \<and> (startswith (remove_numbers v) ''Current'' \<longrightarrow>
         collapse_current (remove_numbers v)
           = ''Current'' @ dropWhile (\<lambda>c. c \<noteq> CHR 0x0A)
                             (drop (length ''Current'') (remove_numbers v)))
   \<and> (startswith (remove_numbers v) ''Current'' \<and> CHR 0x0A \<notin> set v \<longrightarrow>
         collapse_current (remove_numbers v) = ''Current'')
   \<and> (\<not> startswith (remove_numbers v) ''Current'' \<longrightarrow>
         collapse_current (remove_numbers v) = remove_numbers v)"
proof (intro conjI allI impI)
  show "remove_numbers s = filter (\<lambda>c. \<not> is_digit c) s" by (rule remove_numbers_filter)
  show "remove_numbers ''Current123A'' = ''CurrentA''"
    by (simp add: remove_numbers_filter is_digit_def)
next
  fix ps assume "cleaned_column data ''property'' = Inr ps"
  then obtain cleaned where c: "clean_table data = Inr cleaned"
    and p: "get_column cleaned ''property'' = Inr ps"
    by (auto simp: cleaned_column_def bind_err_def split: sum.splits)
  from clean_table_columns [OF c] p
  show "\<exists>rs. get_column data ''register_name'' = Inr rs
            \<and> ps = map (\<lambda>v. collapse_current (remove_numbers v)) rs"
    by auto
next
  assume "startswith (remove_numbers v) ''Current''"
  then show "collapse_current (remove_numbers v)
           = ''Current'' @ dropWhile (\<lambda>c. c \<noteq> CHR 0x0A)
                             (drop (length ''Current'') (remove_numbers v))"
    by (rule collapse_current_prefix)
next
  assume "startswith (remove_numbers v) ''Current'' \<and> CHR 0x0A \<notin> set v"
  then show "collapse_current (remove_numbers v) = ''Current''"
    using collapse_current_one_line by blast
next
  assume "\<not> startswith (remove_numbers v) ''Current''"
  then show "collapse_current (remove_numbers v) = remove_numbers v"
    by (simp add: collapse_current_def)
qed

theorem property_column_witness:
  "cleaned_column ex_small_table ''property'' = Inr [''Current'', ''Voltage'']
   \<and> get_column ex_small_table ''register_name'' = Inr [''Current123A'', ''Voltage1'']
   \<and> startswith (remove_numbers ''Current123A'') ''Current''
   \<and> CHR 0x0A \<notin> set ''Current123A''
   \<and> collapse_current (remove_numbers ''Current123A'') = ''Current''
   \<and> \<not> startswith (remove_numbers ''Voltage1'') ''Current''
   \<and> collapse_current (remove_numbers ''Voltage1'') = ''Voltage''"
proof -
  have r: "remove_numbers ''Current123A'' = ''CurrentA''" "remove_numbers ''Voltage1'' = ''Voltage''"
    by (simp_all add: remove_numbers_filter is_digit_def)
  have h1: "startswith (remove_numbers ''Current123A'') ''Current''"
    and h2: "CHR 0x0A \<notin> set ''Current123A''"
    and h3: "\<not> startswith (remove_numbers ''Voltage1'') ''Current''"
    unfolding r by (simp_all add: startswith_def)
  have h4: "cleaned_column ex_small_table ''property''
              = Inr (map (\<lambda>v. collapse_current (remove_numbers v)) [''Current123A'', ''Voltage1''])"
    by (rule cleaned_columns(3) [OF ex_small_columns(1) ex_dates(1) ex_small_columns(2,3,4)])
  from property_column [of "[]" ex_small_table "''Current123A''"] h1 h2
  have c1: "collapse_current (remove_numbers ''Current123A'') = ''Current''" by blast
  from property_column [of "[]" ex_small_table "''Voltage1''"] h3
  have "collapse_current (remove_numbers ''Voltage1'') = remove_numbers ''Voltage1''" by blast
  then have c2: "collapse_current (remove_numbers ''Voltage1'') = ''Voltage''"
    by (simp only: r)
  from h4 c1 c2 have "cleaned_column ex_small_table ''property'' = Inr [''Current'', ''Voltage'']"
    by simp
  with ex_small_columns(4) h1 h2 h3 c1 c2 show ?thesis by blast
qed

lemma replace_all_absent:
  assumes "\<not> contains s p"
  shows "replace_all p new s = s"
  using assms by (induction s) auto

lemma replace_all_length: "length (replace_all p [] s) \<le> length s"
proof (induction p "[] :: string" s rule: replace_all.induct)
  case (1 old) show ?case by simp
next
  case (2 old c cs)
  show ?case
  proof (cases "old \<noteq> [] \<and> startswith (c # cs) old")
    case True
    with 2(1) have "length (replace_all old [] (drop (length old) (c # cs)))
                      \<le> length (drop (length old) (c # cs))" by simp
    with True show ?thesis by simp
  next
    case False
    with 2(2) show ?thesis by auto
  qed
qed

lemma replace_all_shrinks:
  assumes "p \<noteq> []" and "contains s p"
  shows "length (replace_all p [] s) < length s"
  using assms(2)
proof (induction s)
  case Nil with assms(1) show ?case by simp
next
  case (Cons c cs)
  show ?case
  proof (cases "startswith (c # cs) p")
    case True
    have "length (replace_all p [] (drop (length p) (c # cs))) \<le> length (drop (length p) (c # cs))"
      by (rule replace_all_length)
    moreover from assms(1) have "length (drop (length p) (c # cs)) < length (c # cs)"
      by (cases p) auto
    ultimately have "length (replace_all p [] (drop (length p) (c # cs))) < length (c # cs)"
      by (rule le_less_trans)
    moreover from True assms(1)
    have "replace_all p [] (c # cs) = replace_all p [] (drop (length p) (c # cs))" by simp
    ultimately show ?thesis by (simp only:)
  next
    case False
    with Cons show ?thesis by auto
  qed
qed

lemma replace_all_fixed:
  assumes "p \<noteq> []"
  shows "replace_all p [] s = s \<longleftrightarrow> \<not> contains s p"
  using replace_all_absent [of s p "[]"] replace_all_shrinks [OF assms, of s] by fastforce

lemma quality_prefix_not_empty: "quality_prefix \<noteq> []"
  by (simp add: quality_prefix_def)

lemma clean_quality_fixed: "clean_quality q = q \<longleftrightarrow> \<not> contains q quality_prefix"
  unfolding clean_quality_def by (rule replace_all_fixed [OF quality_prefix_not_empty])

lemma clean_unit_twice: "clean_unit (clean_unit v) = clean_unit v"
  by (simp add: clean_unit_def)

lemma recleaned_columns:
  assumes "clean_table data = Inr cleaned"
    and "get_column cleaned ''unit'' = Inr us" and "get_column cleaned ''quality'' = Inr qs"
  shows "recleaned_column data ''unit'' = Inr (map clean_unit us)"
    and "recleaned_column data ''quality'' = Inr (map clean_quality qs)"
proof -
  let ?t2 = "set_column cleaned ''unit'' (map clean_unit us)"
  let ?t3 = "set_column ?t2 ''quality'' (map clean_quality qs)"
  have lu: "length (map clean_unit us) = length (rows cleaned)"
    using get_column_length [OF assms(2)] by simp
  have q2: "get_column ?t2 ''quality'' = Inr qs"
    using get_set_other [OF lu, of "''quality''" "''unit''"] assms(3) by simp
  have lq: "length (map clean_quality qs) = length (rows ?t2)"
    using get_column_length [OF q2] by simp
  have s2: "clean_unit_column cleaned = Inr ?t2"
    using assms(2) by (simp add: clean_unit_column_def assign_def bind_err_def)
  have s3: "clean_quality_column ?t2 = Inr ?t3"
    using q2 by (simp add: clean_quality_column_def assign_def bind_err_def)
  have "get_column ?t3 ''unit'' = get_column ?t2 ''unit''"
    using get_set_other [OF lq, of "''unit''" "''quality''"] by simp
  also have "\<dots> = Inr (map clean_unit us)" by (rule get_set_same [OF lu])
  finally show "recleaned_column data ''unit'' = Inr (map clean_unit us)"
    by (simp add: recleaned_column_def bind_err_def assms(1) s2 s3)
  have "get_column ?t3 ''quality'' = Inr (map clean_quality qs)" by (rule get_set_same [OF lq])
  then show "recleaned_column data ''quality'' = Inr (map clean_quality qs)"
    by (simp add: recleaned_column_def bind_err_def assms(1) s2 s3)
qed

lemma ex_nested_quality:
  "clean_quality (''Qualit'' @ [CHR 0xE0] @ '' della '' @ quality_prefix @ ''misura: '')
     = quality_prefix"
  "clean_quality quality_prefix = []"
  "clean_quality (quality_prefix @ ''Good'') = ''Good''"
  "clean_quality ''Good'' = ''Good''"
  "clean_unit ''-'' = ''Dimensionless''"
  "clean_unit ''V'' = ''V''"
  by (simp_all add: clean_quality_def quality_prefix_def startswith_def clean_unit_def)

text \<open>
  C9, the claim as stated fails on the quality column: where the prefix stands inside
  an occurrence of the prefix, removing the inner one leaves the outer one behind, and
  the second run removes that.
\<close>

theorem quality_changes_on_second_run:
  "cleaned_column ex_odd_table ''quality'' = Inr [quality_prefix]
   \<and> recleaned_column ex_odd_table ''quality'' = Inr [[]]
   \<and> quality_prefix \<noteq> []"
proof -
  have c: "cleaned_column ex_odd_table ''quality'' = Inr [quality_prefix]"
    using cleaned_columns(2) [OF ex_odd_columns(1) ex_dates(2) ex_odd_columns(2,3,4)]
    by (simp only: list.map ex_nested_quality)
  have u: "cleaned_column ex_odd_table ''unit'' = Inr [''Dimensionless'']"
    using cleaned_columns(1) [OF ex_odd_columns(1) ex_dates(2) ex_odd_columns(2,3,4)]
    by (simp only: list.map ex_nested_quality)
  from c obtain cleaned where t: "clean_table ex_odd_table = Inr cleaned"
    by (auto simp: cleaned_column_def bind_err_def split: sum.splits)
  with c u have "get_column cleaned ''unit'' = Inr [''Dimensionless'']"
    "get_column cleaned ''quality'' = Inr [quality_prefix]"
    by (simp_all add: cleaned_column_def bind_err_def)
  from recleaned_columns(2) [OF t this]
  have "recleaned_column ex_odd_table ''quality'' = Inr [[]]"
    by (simp only: list.map ex_nested_quality)
  with c quality_prefix_not_empty show ?thesis by blast
qed

text \<open>
  C9, amended. On the output of a successful clean, a second run of the unit
  transformation leaves the unit column unchanged. A second run of the quality
  transformation applies the removal to each cleaned value again; it leaves the column
  unchanged exactly when no cleaned value contains the prefix any more, which can fail
  when occurrences of the prefix were nested in the source.
\<close>

theorem unit_idempotent_quality_conditional:
  "(\<forall>us. cleaned_column data ''unit'' = Inr us \<longrightarrow> recleaned_column data ''unit'' = Inr us)
   \<and> (\<forall>qs. cleaned_column data ''quality'' = Inr qs \<longrightarrow>
         recleaned_column data ''quality'' = Inr (map clean_quality qs)
         \<and> (map clean_quality qs = qs \<longleftrightarrow> list_all (\<lambda>q. \<not> contains q quality_prefix) qs))"
proof (intro conjI allI impI)
  fix us assume a: "cleaned_column data ''unit'' = Inr us"
  then obtain cleaned where t: "clean_table data = Inr cleaned"
    and u: "get_column cleaned ''unit'' = Inr us"
    by (auto simp: cleaned_column_def bind_err_def split: sum.splits)
  from clean_table_columns [OF t] u obtain us0 qs where
    us: "us = map clean_unit us0" and q: "get_column cleaned ''quality'' = Inr qs"
    by auto
  from recleaned_columns(1) [OF t u q] us
  show "recleaned_column data ''unit'' = Inr us" by (simp add: clean_unit_twice)
next
  fix qs assume a: "cleaned_column data ''quality'' = Inr qs"
  then obtain cleaned where t: "clean_table data = Inr cleaned"
    and q: "get_column cleaned ''quality'' = Inr qs"
    by (auto simp: cleaned_column_def bind_err_def split: sum.splits)
  from clean_table_columns [OF t] obtain us where u: "get_column cleaned ''unit'' = Inr us"
    by auto
  show "recleaned_column data ''quality'' = Inr (map clean_quality qs)"
    by (rule recleaned_columns(2) [OF t u q])
  show "map clean_quality qs = qs \<longleftrightarrow> list_all (\<lambda>q. \<not> contains q quality_prefix) qs"
    by (induction qs) (simp_all add: clean_quality_fixed)
qed

theorem unit_idempotent_quality_conditional_witness:
  "cleaned_column ex_small_table ''unit'' = Inr [''Dimensionless'', ''V'']
   \<and> recleaned_column ex_small_table ''unit'' = Inr [''Dimensionless'', ''V'']
   \<and> cleaned_column ex_small_table ''quality'' = Inr [''Good'', ''Good'']
   \<and> recleaned_column ex_small_table ''quality'' = Inr (map clean_quality [''Good'', ''Good''])
   \<and> map clean_quality [''Good'', ''Good''] = [''Good'', ''Good'']
   \<and> list_all (\<lambda>q. \<not> contains q quality_prefix) [''Good'', ''Good'']"
proof -
  have u: "cleaned_column ex_small_table ''unit'' = Inr [''Dimensionless'', ''V'']"
    using cleaned_columns(1) [OF ex_small_columns(1) ex_dates(1) ex_small_columns(2,3,4)]
    by (simp only: list.map ex_nested_quality)
  have q: "cleaned_column ex_small_table ''quality'' = Inr [''Good'', ''Good'']"
    using cleaned_columns(2) [OF ex_small_columns(1) ex_dates(1) ex_small_columns(2,3,4)]
    by (simp only: list.map ex_nested_quality)
  have m: "map clean_quality [''Good'', ''Good''] = [''Good'', ''Good'']"
    by (simp only: list.map ex_nested_quality)
  note inst = unit_idempotent_quality_conditional [of ex_small_table]
  note ru = inst [THEN conjunct1, rule_format, OF u]
  note rq = inst [THEN conjunct2, rule_format, OF q]
  note la = rq [THEN conjunct2, THEN iffD1, OF m]
  from u ru q rq [THEN conjunct1] m la show ?thesis by (intro conjI)
qed

section \<open>The orchestrator and a malformed timestamp\<close>

lemma logging_frame [simp]:
  "files (logging_info msg w) = files w" "files (logging_error msg w) = files w"
  "commands (logging_info msg w) = commands w" "commands (logging_error msg w) = commands w"
  "requests (logging_info msg w) = requests w" "requests (logging_error msg w) = requests w"
  by (simp_all add: logging_info_def logging_error_def)










section \<open>The uploader: properties\<close>














end
